theory Spec2Isabelle
  imports Main
begin

section \<open>Data model\<close>

text \<open>
  The local-first asset layer of the menu board: \<^verbatim>\<open>lib/storage.js\<close> (the local cache in
  IndexedDB, scoped by the current user, with a version marker per key) and
  \<^verbatim>\<open>lib/cloudAssets.js\<close> (the versioned folders of the remote bucket).

  A JavaScript value that can sit in the cache is a JSON value (JS \<^verbatim>\<open>null\<close> is \<open>JNull\<close>, a JS
  string is \<open>JStr\<close>) or a Blob/File. \<^verbatim>\<open>undefined\<close> is \<open>None\<close> of an option type. Strings are
  lists of code units below 256.
\<close>

datatype json =
    JNull
  | JBool bool
  | JNum int
  | JStr string
  | JArr "json list"
  | JObj "(string \<times> json) list"

record blob =
  blob_name :: "string option"
  blob_type :: string
  blob_text :: string

datatype val = J json | B blob

type_synonym idb = "string \<rightharpoonup> val"

datatype error = LoginRequired | Failure string

text \<open>The calls that reach the outside world, in the order they are made.\<close>

datatype event =
    Notified
  | Listed string
  | Downloaded string
  | Uploaded string
  | Removed "string list"

record session =
  session_user_id :: "string option"

text \<open>An entry of a folder listing; an entry without a name is the entry named \<open>''''\<close>
  (both are dropped by the filter \<^verbatim>\<open>x?.name\<close>).\<close>

record item =
  name :: string

record list_reply =
  list_data :: "item list option"
  list_error :: bool

record download_reply =
  dl_data :: "blob option"
  dl_error :: bool

text \<open>
  What the collaborators answer during one call of this layer: the session module
  (\<^verbatim>\<open>getCurrentUser\<close>), Supabase auth and storage, the clock and the JSON codec. A call of the
  library that rejects is \<open>Inl\<close>.
\<close>

record env =
  currentUser :: "string option"
  authSession :: "error + session option"
  authUser :: "error + string option"
  storageList :: "string \<Rightarrow> error + list_reply"
  storageDownload :: "string \<Rightarrow> error + download_reply"
  storageUpload :: "string \<Rightarrow> blob \<Rightarrow> string \<Rightarrow> error + error option"
  storageRemove :: "string list \<Rightarrow> error + unit"
  dateNow :: nat
  jsonParse :: "string \<Rightarrow> json option"
  jsonStringify :: "json \<Rightarrow> string"

section \<open>Strings\<close>

text \<open>\<^verbatim>\<open>a < b\<close> on JavaScript strings: lexicographic on code units.\<close>

fun js_less :: "string \<Rightarrow> string \<Rightarrow> bool" where
  "js_less [] [] = False"
| "js_less [] (y # ys) = True"
| "js_less (x # xs) [] = False"
| "js_less (x # xs) (y # ys) =
     (if (of_char x :: nat) < of_char y then True
      else if (of_char y :: nat) < of_char x then False
      else js_less xs ys)"

text \<open>The decimal numeral of a non-negative integer, as a template literal prints it.\<close>

definition digit_char :: "nat \<Rightarrow> char" where
  "digit_char d = ''0123456789'' ! d"

fun dec :: "nat \<Rightarrow> string" where
  "dec n = (if n < 10 then [digit_char n] else dec (n div 10) @ [digit_char (n mod 10)])"

declare dec.simps [simp del]

definition is_ws :: "char \<Rightarrow> bool" where
  "is_ws c = ((of_char c :: nat) \<in> {9, 10, 11, 12, 13, 32, 160})"

definition trim :: "string \<Rightarrow> string" where
  "trim s = rev (dropWhile is_ws (rev (dropWhile is_ws s)))"

fun str_includes :: "string \<Rightarrow> string \<Rightarrow> bool" where
  "str_includes [] t = (t = [])"
| "str_includes (x # xs) t = (take (length t) (x # xs) = t \<or> str_includes xs t)"

definition endsWith :: "string \<Rightarrow> string \<Rightarrow> bool" where
  "endsWith s t = (length t \<le> length s \<and> drop (length s - length t) s = t)"

text \<open>\<^verbatim>\<open>p.split('/').pop()\<close>: what follows the last slash.\<close>

definition last_segment :: "string \<Rightarrow> string" where
  "last_segment p = rev (takeWhile (\<lambda>c. c \<noteq> CHR ''/'') (rev p))"

section \<open>cloudAssets.js\<close>

text \<open>
  \<^verbatim>\<open>USE_SERVER_SIGNING\<close> is \<^verbatim>\<open>!IS_LOCALHOST_APP && false\<close>, that is \<^verbatim>\<open>false\<close> on every host, so
  the branches it guards are never taken and are left out. The two legacy switches are
  plain constants of the module and their branches are kept.
\<close>

definition ENABLE_LEGACY_MIRROR :: bool where
  "ENABLE_LEGACY_MIRROR = False"

definition DISABLE_LEGACY_FALLBACK :: bool where
  "DISABLE_LEGACY_FALLBACK = True"

text \<open>\<^verbatim>\<open>data?.session?.user?.id || null\<close>.\<close>

definition getUserId :: "env \<Rightarrow> error + string option" where
  "getUserId e =
     (case authSession e of
        Inl err \<Rightarrow> Inl err
      | Inr None \<Rightarrow> Inr None
      | Inr (Some sess) \<Rightarrow>
          (case session_user_id sess of
             None \<Rightarrow> Inr None
           | Some u \<Rightarrow> if u = [] then Inr None else Inr (Some u)))"

definition normalizeName :: "string \<Rightarrow> string" where
  "normalizeName n =
     (if n = [] then []
      else dropWhile (\<lambda>c. c = CHR ''/'') (map (\<lambda>c. if c = CHR 0x5C then CHR ''/'' else c) n))"

text \<open>The comparator \<^verbatim>\<open>(a, b) => (a.name < b.name ? 1 : -1)\<close>.\<close>

definition name_desc :: "item \<Rightarrow> item \<Rightarrow> int" where
  "name_desc a b = (if js_less (name a) (name b) then 1 else - 1)"

text \<open>\<^verbatim>\<open>Array.prototype.sort\<close> with a comparator, as an insertion sort: \<open>x\<close> goes before the
  first \<open>y\<close> with \<open>cmp x y \<le> 0\<close>.\<close>

fun sort_insert :: "('a \<Rightarrow> 'a \<Rightarrow> int) \<Rightarrow> 'a \<Rightarrow> 'a list \<Rightarrow> 'a list" where
  "sort_insert cmp x [] = [x]"
| "sort_insert cmp x (y # ys) = (if cmp x y \<le> 0 then x # y # ys else y # sort_insert cmp x ys)"

definition js_sort :: "('a \<Rightarrow> 'a \<Rightarrow> int) \<Rightarrow> 'a list \<Rightarrow> 'a list" where
  "js_sort cmp xs = foldr (sort_insert cmp) xs []"

definition listLatestVersionPath :: "env \<Rightarrow> string \<Rightarrow> string \<Rightarrow> string option \<times> event list" where
  "listLatestVersionPath e userId assetKey =
     (let folder = userId @ ''/'' @ assetKey in
      case storageList e folder of
        Inl err \<Rightarrow> (None, [Listed folder])
      | Inr reply \<Rightarrow>
          if list_error reply then (None, [Listed folder])
          else
            (case list_data reply of
               None \<Rightarrow> (None, [Listed folder])
             | Some l \<Rightarrow>
                 if l = [] then (None, [Listed folder])
                 else
                   (case js_sort name_desc (filter (\<lambda>x. name x \<noteq> []) l) of
                      [] \<Rightarrow> (None, [Listed folder])
                    | latest # _ \<Rightarrow>
                        (Some (folder @ ''/'' @ normalizeName (name latest)), [Listed folder]))))"

definition upsertLegacyAsset :: "string \<Rightarrow> string \<Rightarrow> blob option \<Rightarrow> event list" where
  "upsertLegacyAsset userId assetKey fileOrBlob =
     (if \<not> ENABLE_LEGACY_MIRROR then []
      else if userId = [] \<or> assetKey = [] \<or> fileOrBlob = None then []
      else [Uploaded (userId @ ''/'' @ assetKey)])"

definition inferredFilename :: "string \<Rightarrow> blob \<Rightarrow> string" where
  "inferredFilename assetKey file =
     (case blob_name file of
        None \<Rightarrow> assetKey @ ''.bin''
      | Some n \<Rightarrow> if length (trim n) > 0 then trim n else assetKey @ ''.bin'')"

definition inferredContentType :: "string option \<Rightarrow> blob \<Rightarrow> string" where
  "inferredContentType contentType file =
     (case contentType of
        Some c \<Rightarrow> if c \<noteq> [] then c
                  else if blob_type file \<noteq> [] then blob_type file else ''application/octet-stream''
      | None \<Rightarrow> if blob_type file \<noteq> [] then blob_type file else ''application/octet-stream'')"

text \<open>The object path \<^verbatim>\<open>`${userId}/${assetKey}/${Date.now()}-${inferredFilename}`\<close>; its last
  segment is the name the folder listing shows.\<close>

definition versionName :: "nat \<Rightarrow> string \<Rightarrow> string" where
  "versionName now filename = dec now @ ''-'' @ filename"

definition objectPath :: "string \<Rightarrow> string \<Rightarrow> nat \<Rightarrow> string \<Rightarrow> string" where
  "objectPath userId assetKey now filename =
     userId @ ''/'' @ assetKey @ ''/'' @ versionName now filename"

definition uploadAsset ::
  "env \<Rightarrow> string \<Rightarrow> blob option \<Rightarrow> string option \<Rightarrow> (error + string option) \<times> event list" where
  "uploadAsset e assetKey file contentType =
     (case file of
        None \<Rightarrow> (Inr None, [])
      | Some f \<Rightarrow>
          if assetKey = [] then (Inr None, [])
          else
            (case getUserId e of
               Inl err \<Rightarrow> (Inl err, [])
             | Inr None \<Rightarrow> (Inl LoginRequired, [])
             | Inr (Some userId) \<Rightarrow>
                 (let p = objectPath userId assetKey (dateNow e) (inferredFilename assetKey f) in
                  case storageUpload e p f (inferredContentType contentType f) of
                    Inl err \<Rightarrow> (Inl err, [Uploaded p])
                  | Inr (Some uploadError) \<Rightarrow> (Inl uploadError, [Uploaded p])
                  | Inr None \<Rightarrow>
                      (Inr (Some p), Uploaded p # upsertLegacyAsset userId assetKey (Some f)))))"

definition uploadJsonAsset :: "env \<Rightarrow> string \<Rightarrow> json \<Rightarrow> (error + string option) \<times> event list" where
  "uploadJsonAsset e assetKey data =
     (if assetKey = [] then (Inr None, [])
      else
        uploadAsset e assetKey
          (Some \<lparr>blob_name = Some (assetKey @ ''.json''), blob_type = ''application/json'',
                  blob_text = jsonStringify e (if data = JNull then JObj [] else data)\<rparr>)
          (Some ''application/json''))"

definition downloadAssetBlob :: "env \<Rightarrow> string \<Rightarrow> (error + blob option) \<times> event list" where
  "downloadAssetBlob e assetKey =
     (if assetKey = [] then (Inr None, [])
      else
        (case getUserId e of
           Inl err \<Rightarrow> (Inl err, [])
         | Inr None \<Rightarrow> (Inr None, [])
         | Inr (Some userId) \<Rightarrow>
             (let (latestPath, ev) = listLatestVersionPath e userId assetKey;
                  legacyPath = userId @ ''/'' @ assetKey;
                  legacy =
                    (if \<not> DISABLE_LEGACY_FALLBACK then
                       (case storageDownload e legacyPath of
                          Inl err \<Rightarrow> (Inr None, [Downloaded legacyPath])
                        | Inr r \<Rightarrow>
                            (if \<not> dl_error r \<and> dl_data r \<noteq> None then Inr (dl_data r) else Inr None,
                             [Downloaded legacyPath]))
                     else (Inr None, []))
              in
                case latestPath of
                  None \<Rightarrow> (fst legacy, ev @ snd legacy)
                | Some p \<Rightarrow>
                    (case storageDownload e p of
                       Inl err \<Rightarrow> (fst legacy, ev @ Downloaded p # snd legacy)
                     | Inr r \<Rightarrow>
                         if \<not> dl_error r \<and> dl_data r \<noteq> None
                         then (Inr (dl_data r),
                               ev @ Downloaded p # upsertLegacyAsset userId assetKey (dl_data r))
                         else (fst legacy, ev @ Downloaded p # snd legacy)))))"

definition downloadAssetBlobByPath :: "env \<Rightarrow> string \<Rightarrow> blob option \<times> event list" where
  "downloadAssetBlobByPath e path =
     (if path = [] then (None, [])
      else
        (case storageDownload e path of
           Inl err \<Rightarrow> (None, [Downloaded path])
         | Inr r \<Rightarrow>
             (if \<not> dl_error r \<and> dl_data r \<noteq> None then dl_data r else None, [Downloaded path])))"

text \<open>\<^verbatim>\<open>downloadJsonAsset\<close> returns \<^verbatim>\<open>null\<close> (\<open>JNull\<close>) when there is no blob or its text does
  not parse.\<close>

definition downloadJsonAsset :: "env \<Rightarrow> string \<Rightarrow> (error + json) \<times> event list" where
  "downloadJsonAsset e assetKey =
     (case downloadAssetBlob e assetKey of
        (Inl err, ev) \<Rightarrow> (Inl err, ev)
      | (Inr None, ev) \<Rightarrow> (Inr JNull, ev)
      | (Inr (Some b), ev) \<Rightarrow>
          (case jsonParse e (blob_text b) of
             None \<Rightarrow> (Inr JNull, ev)
           | Some j \<Rightarrow> (Inr j, ev)))"

record version_info =
  version :: string
  path :: string
  legacy :: bool

definition getLatestAssetVersion :: "env \<Rightarrow> string \<Rightarrow> (error + version_info option) \<times> event list" where
  "getLatestAssetVersion e assetKey =
     (if assetKey = [] then (Inr None, [])
      else
        (case getUserId e of
           Inl err \<Rightarrow> (Inl err, [])
         | Inr None \<Rightarrow> (Inr None, [])
         | Inr (Some userId) \<Rightarrow>
             (case listLatestVersionPath e userId assetKey of
                (Some p, ev) \<Rightarrow> (Inr (Some \<lparr>version = p, path = p, legacy = False\<rparr>), ev)
              | (None, ev) \<Rightarrow>
                  if \<not> DISABLE_LEGACY_FALLBACK
                  then (Inr (Some \<lparr>version = userId @ ''/'' @ assetKey,
                                    path = userId @ ''/'' @ assetKey, legacy = True\<rparr>), ev)
                  else (Inr None, ev))))"

section \<open>storage.js\<close>

text \<open>
  IndexedDB (\<^verbatim>\<open>idb-keyval\<close>) is a map from keys to values: \<^verbatim>\<open>get\<close> of a missing key is
  \<^verbatim>\<open>undefined\<close>, \<^verbatim>\<open>set\<close> and \<^verbatim>\<open>del\<close> update one key, and none of them fails. An operation
  returns its result, the new map and the remote calls it made, in order.

  The source holds two revisions of the module with version markers. \<^verbatim>\<open>withUserScope\<close>,
  \<^verbatim>\<open>loadLocalValue\<close>, the version marker, \<^verbatim>\<open>saveBlob\<close> and \<^verbatim>\<open>saveJson\<close> are the same text in
  both; the reconcilers and \<^verbatim>\<open>removeKey\<close> differ and are modelled twice, \<open>_v1\<close> without and
  \<open>_v2\<close> with the direct download by the stored version path. Both are read against the
  revision of \<^verbatim>\<open>cloudAssets.js\<close> that exports \<^verbatim>\<open>downloadAssetBlobByPath\<close>. An older revision of
  the module, with neither version markers nor reconcilers, is not modelled.
\<close>

definition VERSION_SUFFIX :: string where
  "VERSION_SUFFIX = ''__remoteVersion''"

definition withUserScope :: "env \<Rightarrow> string \<Rightarrow> string \<times> string option" where
  "withUserScope e key =
     (case currentUser e of
        None \<Rightarrow> (key, None)
      | Some u \<Rightarrow> if u = [] then (key, None) else (u @ ''__'' @ key, Some u))"

definition versionKey :: "string \<Rightarrow> string" where
  "versionKey key = key @ VERSION_SUFFIX"

text \<open>\<^verbatim>\<open>data !== undefined && data !== null\<close>.\<close>

definition present :: "val option \<Rightarrow> bool" where
  "present d = (d \<noteq> None \<and> d \<noteq> Some (J JNull))"

fun truthy :: "val option \<Rightarrow> bool" where
  "truthy None = False"
| "truthy (Some (B b)) = True"
| "truthy (Some (J JNull)) = False"
| "truthy (Some (J (JBool b))) = b"
| "truthy (Some (J (JNum n))) = (n \<noteq> 0)"
| "truthy (Some (J (JStr s))) = (s \<noteq> [])"
| "truthy (Some (J (JArr xs))) = True"
| "truthy (Some (J (JObj kvs))) = True"

definition loadLocalValue ::
  "env \<Rightarrow> string \<Rightarrow> idb \<Rightarrow> (val option \<times> string \<times> string option) \<times> idb" where
  "loadLocalValue e key db =
     (let (scopedKey, user) = withUserScope e key;
          data = db scopedKey
      in
        if present data then ((data, scopedKey, user), db)
        else if user \<noteq> None \<and> scopedKey \<noteq> key then
          (let fallback = db key in
             if present fallback
             then ((fallback, scopedKey, user), (db(scopedKey := fallback))(key := None))
             else ((data, scopedKey, user), db))
        else ((data, scopedKey, user), db))"

definition getStoredVersion :: "env \<Rightarrow> string \<Rightarrow> idb \<Rightarrow> val option" where
  "getStoredVersion e key db = db (fst (withUserScope e (versionKey key)))"

definition setStoredVersion :: "env \<Rightarrow> string \<Rightarrow> string option \<Rightarrow> idb \<Rightarrow> idb" where
  "setStoredVersion e key ver db =
     (case ver of
        None \<Rightarrow> db
      | Some v \<Rightarrow>
          if v = [] then db
          else db(fst (withUserScope e (versionKey key)) \<mapsto> J (JStr v)))"

definition loadLocalBlob :: "env \<Rightarrow> string \<Rightarrow> idb \<Rightarrow> val option \<times> idb" where
  "loadLocalBlob e key db = (case loadLocalValue e key db of ((data, _, _), db') \<Rightarrow> (data, db'))"

definition loadLocalJson :: "env \<Rightarrow> string \<Rightarrow> idb \<Rightarrow> val option \<times> idb" where
  "loadLocalJson e key db = (case loadLocalValue e key db of ((data, _, _), db') \<Rightarrow> (data, db'))"

definition saveBlob :: "env \<Rightarrow> string \<Rightarrow> blob \<Rightarrow> idb \<Rightarrow> (error + unit) \<times> idb \<times> event list" where
  "saveBlob e key blob db =
     (let scopedKey = fst (withUserScope e key);
          db1 = db(scopedKey \<mapsto> B blob)
      in
        case authSession e of
          Inl err \<Rightarrow> (Inr (), db1, [])
        | Inr None \<Rightarrow> (Inr (), db1, [])
        | Inr (Some _) \<Rightarrow>
            (case uploadAsset e key (Some blob)
                    (if blob_type blob \<noteq> [] then Some (blob_type blob) else None) of
               (Inl err, ev) \<Rightarrow> (Inr (), db1, ev)
             | (Inr remotePath, ev) \<Rightarrow> (Inr (), setStoredVersion e key remotePath db1, ev)))"

definition saveJson :: "env \<Rightarrow> string \<Rightarrow> json \<Rightarrow> idb \<Rightarrow> (error + unit) \<times> idb \<times> event list" where
  "saveJson e key data db =
     (let scopedKey = fst (withUserScope e key);
          db1 = db(scopedKey \<mapsto> J data)
      in
        case authSession e of
          Inl err \<Rightarrow> (Inr (), db1, [])
        | Inr None \<Rightarrow> (Inr (), db1, [])
        | Inr (Some _) \<Rightarrow>
            (case uploadJsonAsset e key data of
               (Inl err, ev) \<Rightarrow> (Inr (), db1, ev)
             | (Inr remotePath, ev) \<Rightarrow> (Inr (), setStoredVersion e key remotePath db1, ev)))"

text \<open>The result of a reconciliation: \<^verbatim>\<open>{ updated: false }\<close> or
  \<^verbatim>\<open>{ updated: true, data }\<close>.\<close>

datatype sync_result = NotUpdated | Updated val

text \<open>The caller's \<^verbatim>\<open>onRemoteDiff\<close>: absent, or a function that returns (\<open>Inr\<close>) or throws
  (\<open>Inl\<close>) when called. \<^verbatim>\<open>if (onRemoteDiff) onRemoteDiff()\<close>:\<close>

definition notify :: "(error + unit) option \<Rightarrow> (error + unit) \<times> event list" where
  "notify onRemoteDiff =
     (case onRemoteDiff of
        None \<Rightarrow> (Inr (), [])
      | Some r \<Rightarrow> (r, [Notified]))"

text \<open>\<^verbatim>\<open>localVersion && localVersion === remote\<close>, the right-hand side a string.\<close>

definition same_version :: "val option \<Rightarrow> string \<Rightarrow> bool" where
  "same_version localVersion remote = (truthy localVersion \<and> localVersion = Some (J (JStr remote)))"

definition syncBlobFromCloud_v1 ::
  "env \<Rightarrow> string \<Rightarrow> (error + unit) option \<Rightarrow> idb \<Rightarrow> sync_result \<times> idb \<times> event list" where
  "syncBlobFromCloud_v1 e key onRemoteDiff db =
     (case authSession e of
        Inl err \<Rightarrow> (NotUpdated, db, [])
      | Inr None \<Rightarrow> (NotUpdated, db, [])
      | Inr (Some _) \<Rightarrow>
          (case getLatestAssetVersion e key of
             (Inl err, ev1) \<Rightarrow> (NotUpdated, db, ev1)
           | (Inr None, ev1) \<Rightarrow> (NotUpdated, db, ev1)
           | (Inr (Some remoteVersion), ev1) \<Rightarrow>
               if version remoteVersion = [] then (NotUpdated, db, ev1)
               else if same_version (getStoredVersion e key db) (version remoteVersion)
               then (NotUpdated, db, ev1)
               else
                 (case notify onRemoteDiff of
                    (Inl err, ev2) \<Rightarrow> (NotUpdated, db, ev1 @ ev2)
                  | (Inr _, ev2) \<Rightarrow>
                      (case downloadAssetBlob e key of
                         (Inl err, ev3) \<Rightarrow> (NotUpdated, db, ev1 @ ev2 @ ev3)
                       | (Inr None, ev3) \<Rightarrow> (NotUpdated, db, ev1 @ ev2 @ ev3)
                       | (Inr (Some blob), ev3) \<Rightarrow>
                           (Updated (B blob),
                            setStoredVersion e key (Some (version remoteVersion))
                              (db(fst (withUserScope e key) \<mapsto> B blob)),
                            ev1 @ ev2 @ ev3)))))"

definition syncJsonFromCloud_v1 ::
  "env \<Rightarrow> string \<Rightarrow> (error + unit) option \<Rightarrow> idb \<Rightarrow> sync_result \<times> idb \<times> event list" where
  "syncJsonFromCloud_v1 e key onRemoteDiff db =
     (case authSession e of
        Inl err \<Rightarrow> (NotUpdated, db, [])
      | Inr None \<Rightarrow> (NotUpdated, db, [])
      | Inr (Some _) \<Rightarrow>
          (case getLatestAssetVersion e key of
             (Inl err, ev1) \<Rightarrow> (NotUpdated, db, ev1)
           | (Inr None, ev1) \<Rightarrow> (NotUpdated, db, ev1)
           | (Inr (Some remoteVersion), ev1) \<Rightarrow>
               if version remoteVersion = [] then (NotUpdated, db, ev1)
               else if same_version (getStoredVersion e key db) (version remoteVersion)
               then (NotUpdated, db, ev1)
               else
                 (case notify onRemoteDiff of
                    (Inl err, ev2) \<Rightarrow> (NotUpdated, db, ev1 @ ev2)
                  | (Inr _, ev2) \<Rightarrow>
                      (case downloadJsonAsset e key of
                         (Inl err, ev3) \<Rightarrow> (NotUpdated, db, ev1 @ ev2 @ ev3)
                       | (Inr json, ev3) \<Rightarrow>
                           if json = JNull then (NotUpdated, db, ev1 @ ev2 @ ev3)
                           else
                             (Updated (J json),
                              setStoredVersion e key (Some (version remoteVersion))
                                (db(fst (withUserScope e key) \<mapsto> J json)),
                              ev1 @ ev2 @ ev3)))))"

text \<open>\<^verbatim>\<open>remoteVersion?.version || null\<close>.\<close>

definition remotePath_of :: "version_info option \<Rightarrow> string option" where
  "remotePath_of remoteVersion =
     (case remoteVersion of
        None \<Rightarrow> None
      | Some v \<Rightarrow> if version v = [] then None else Some (version v))"

definition looksLikeFilePath :: "string \<Rightarrow> val option \<Rightarrow> bool" where
  "looksLikeFilePath key p =
     (case p of
        Some (J (JStr s)) \<Rightarrow>
          str_includes s (''/'' @ key @ ''/'') \<and> \<not> endsWith s (''/'' @ key)
          \<and> CHR ''-'' \<in> set (last_segment s)
      | _ \<Rightarrow> False)"

text \<open>The download of the second revision: by the stored path when it looks like a file
  path, by key otherwise.\<close>

definition fetchBlob_v2 :: "env \<Rightarrow> string \<Rightarrow> val option \<Rightarrow> (error + blob option) \<times> event list" where
  "fetchBlob_v2 e key localVersion =
     (if looksLikeFilePath key localVersion then
        (case localVersion of
           Some (J (JStr s)) \<Rightarrow> (Inr (fst (downloadAssetBlobByPath e s)), snd (downloadAssetBlobByPath e s))
         | _ \<Rightarrow> (Inr None, []))
      else downloadAssetBlob e key)"

definition syncBlobFromCloud_v2 ::
  "env \<Rightarrow> string \<Rightarrow> (error + unit) option \<Rightarrow> idb \<Rightarrow> sync_result \<times> idb \<times> event list" where
  "syncBlobFromCloud_v2 e key onRemoteDiff db =
     (case authSession e of
        Inl err \<Rightarrow> (NotUpdated, db, [])
      | Inr None \<Rightarrow> (NotUpdated, db, [])
      | Inr (Some _) \<Rightarrow>
          (let localVersion = getStoredVersion e key db in
           case getLatestAssetVersion e key of
             (Inl err, ev1) \<Rightarrow> (NotUpdated, db, ev1)
           | (Inr remoteVersion, ev1) \<Rightarrow>
               (let remotePath = remotePath_of remoteVersion in
                if (case remotePath of None \<Rightarrow> False | Some p \<Rightarrow> same_version localVersion p)
                then (NotUpdated, db, ev1)
                else
                  (case notify onRemoteDiff of
                     (Inl err, ev2) \<Rightarrow> (NotUpdated, db, ev1 @ ev2)
                   | (Inr _, ev2) \<Rightarrow>
                       (case fetchBlob_v2 e key localVersion of
                          (Inl err, ev3) \<Rightarrow> (NotUpdated, db, ev1 @ ev2 @ ev3)
                        | (Inr None, ev3) \<Rightarrow> (NotUpdated, db, ev1 @ ev2 @ ev3)
                        | (Inr (Some blob), ev3) \<Rightarrow>
                            (Updated (B blob),
                             setStoredVersion e key remotePath
                               (db(fst (withUserScope e key) \<mapsto> B blob)),
                             ev1 @ ev2 @ ev3))))))"

text \<open>The JSON fetch of the second revision: the blob by the stored path parsed in place
  (a parse error leaves \<^verbatim>\<open>null\<close>), or \<^verbatim>\<open>downloadJsonAsset\<close>.\<close>

definition fetchJson_v2 :: "env \<Rightarrow> string \<Rightarrow> val option \<Rightarrow> (error + json) \<times> event list" where
  "fetchJson_v2 e key localVersion =
     (if looksLikeFilePath key localVersion then
        (case localVersion of
           Some (J (JStr s)) \<Rightarrow>
             (case downloadAssetBlobByPath e s of
                (None, ev) \<Rightarrow> (Inr JNull, ev)
              | (Some blob, ev) \<Rightarrow>
                  (case jsonParse e (blob_text blob) of
                     None \<Rightarrow> (Inr JNull, ev)
                   | Some j \<Rightarrow> (Inr j, ev)))
         | _ \<Rightarrow> (Inr JNull, []))
      else downloadJsonAsset e key)"

definition syncJsonFromCloud_v2 ::
  "env \<Rightarrow> string \<Rightarrow> (error + unit) option \<Rightarrow> idb \<Rightarrow> sync_result \<times> idb \<times> event list" where
  "syncJsonFromCloud_v2 e key onRemoteDiff db =
     (case authSession e of
        Inl err \<Rightarrow> (NotUpdated, db, [])
      | Inr None \<Rightarrow> (NotUpdated, db, [])
      | Inr (Some _) \<Rightarrow>
          (let localVersion = getStoredVersion e key db in
           case getLatestAssetVersion e key of
             (Inl err, ev1) \<Rightarrow> (NotUpdated, db, ev1)
           | (Inr remoteVersion, ev1) \<Rightarrow>
               (let remotePath = remotePath_of remoteVersion in
                if (case remotePath of None \<Rightarrow> False | Some p \<Rightarrow> same_version localVersion p)
                then (NotUpdated, db, ev1)
                else
                  (case notify onRemoteDiff of
                     (Inl err, ev2) \<Rightarrow> (NotUpdated, db, ev1 @ ev2)
                   | (Inr _, ev2) \<Rightarrow>
                       (case fetchJson_v2 e key localVersion of
                          (Inl err, ev3) \<Rightarrow> (NotUpdated, db, ev1 @ ev2 @ ev3)
                        | (Inr json, ev3) \<Rightarrow>
                            if json = JNull then (NotUpdated, db, ev1 @ ev2 @ ev3)
                            else
                              (Updated (J json),
                               setStoredVersion e key remotePath
                                 (db(fst (withUserScope e key) \<mapsto> J json)),
                               ev1 @ ev2 @ ev3))))))"

text \<open>\<^verbatim>\<open>removeKey\<close>: the two local deletions come first, outside the \<^verbatim>\<open>try\<close>; the remote
  removal is best effort.\<close>

definition removeKey_v1 :: "env \<Rightarrow> string \<Rightarrow> idb \<Rightarrow> (error + unit) \<times> idb \<times> event list" where
  "removeKey_v1 e key db =
     (let db1 = db(fst (withUserScope e key) := None);
          db2 = db1(fst (withUserScope e (versionKey key)) := None)
      in
        case authSession e of
          Inl err \<Rightarrow> (Inr (), db2, [])
        | Inr None \<Rightarrow> (Inr (), db2, [])
        | Inr (Some _) \<Rightarrow>
            (case authUser e of
               Inl err \<Rightarrow> (Inr (), db2, [])
             | Inr None \<Rightarrow> (Inr (), db2, [])
             | Inr (Some userId) \<Rightarrow>
                 if userId = [] then (Inr (), db2, [])
                 else
                   (case storageRemove e [userId @ ''/'' @ key] of
                      Inl err \<Rightarrow> (Inr (), db2, [Removed [userId @ ''/'' @ key]])
                    | Inr _ \<Rightarrow> (Inr (), db2, [Removed [userId @ ''/'' @ key]]))))"

definition removeKey_v2 :: "env \<Rightarrow> string \<Rightarrow> idb \<Rightarrow> (error + unit) \<times> idb \<times> event list" where
  "removeKey_v2 e key db =
     (let db1 = db(fst (withUserScope e key) := None);
          db2 = db1(fst (withUserScope e (versionKey key)) := None)
      in
        case authSession e of
          Inl err \<Rightarrow> (Inr (), db2, [])
        | Inr None \<Rightarrow> (Inr (), db2, [])
        | Inr (Some _) \<Rightarrow>
            (case authUser e of
               Inl err \<Rightarrow> (Inr (), db2, [])
             | Inr None \<Rightarrow> (Inr (), db2, [])
             | Inr (Some userId) \<Rightarrow>
                 if userId = [] then (Inr (), db2, [])
                 else
                   (let prefix = userId @ ''/'' @ key;
                        listed =
                          (case storageList e prefix of
                             Inl err \<Rightarrow> []
                           | Inr reply \<Rightarrow>
                               (case list_data reply of
                                  None \<Rightarrow> []
                                | Some l \<Rightarrow>
                                    map (\<lambda>it. prefix @ ''/'' @ name it)
                                      (filter (\<lambda>it. name it \<noteq> []) l)));
                        paths = filter (\<lambda>p. p \<noteq> []) (listed @ [prefix])
                    in
                      case storageRemove e paths of
                        Inl err \<Rightarrow> (Inr (), db2, [Listed prefix, Removed paths])
                      | Inr _ \<Rightarrow> (Inr (), db2, [Listed prefix, Removed paths]))))"

section \<open>Sample inputs\<close>

definition sample_blob :: blob where
  "sample_blob = \<lparr>blob_name = None, blob_type = ''image/png'', blob_text = ''png-bytes''\<rparr>"

text \<open>A signed-in device whose every remote call is rejected.\<close>

definition offline_env :: env where
  "offline_env =
     \<lparr>currentUser = Some ''u1'',
      authSession = Inr (Some \<lparr>session_user_id = Some ''u1''\<rparr>),
      authUser = Inl (Failure ''offline''),
      storageList = (\<lambda>_. Inl (Failure ''offline'')),
      storageDownload = (\<lambda>_. Inl (Failure ''offline'')),
      storageUpload = (\<lambda>_ _ _. Inl (Failure ''offline'')),
      storageRemove = (\<lambda>_. Inl (Failure ''offline'')),
      dateNow = 1700000000000,
      jsonParse = (\<lambda>_. None),
      jsonStringify = (\<lambda>_. ''{}'')\<rparr>"

text \<open>A cache written before any sign-in, and the cache of user \<open>u1\<close> after one upload.\<close>

definition legacy_db :: idb where
  "legacy_db = [''k'' \<mapsto> B sample_blob]"

definition synced_db :: idb where
  "synced_db =
     [''u1__k'' \<mapsto> B sample_blob,
      ''u1__k__remoteVersion'' \<mapsto> J (JStr ''u1/k/1700000000000-k.bin'')]"


text \<open>Two reconciliation passes in a row, the second on the cache the first left.\<close>

definition second_pass ::
  "(idb \<Rightarrow> sync_result \<times> idb \<times> event list) \<Rightarrow> idb \<Rightarrow> sync_result \<times> idb \<times> event list" where
  "second_pass f db = f (fst (snd (f db)))"

text \<open>A signed-in device with one version in the folder of key \<open>k\<close>; the same where the
  listed object can no longer be read while an older object still can, with a cache whose
  marker names that older object; the same with the listing refused.\<close>

definition online_env :: env where
  "online_env =
     \<lparr>currentUser = Some ''u1'',
      authSession = Inr (Some \<lparr>session_user_id = Some ''u1''\<rparr>),
      authUser = Inr (Some ''u1''),
      storageList = (\<lambda>folder. if folder = ''u1/k''
         then Inr \<lparr>list_data = Some [\<lparr>name = ''1700000000000-k.bin''\<rparr>], list_error = False\<rparr>
         else Inr \<lparr>list_data = Some [], list_error = False\<rparr>),
      storageDownload = (\<lambda>_. Inr \<lparr>dl_data = Some sample_blob, dl_error = False\<rparr>),
      storageUpload = (\<lambda>_ _ _. Inr None),
      storageRemove = (\<lambda>_. Inr ()),
      dateNow = 1700000000000,
      jsonParse = (\<lambda>t. if t = ''{}'' then Some (JObj []) else None),
      jsonStringify = (\<lambda>_. ''{}'')\<rparr>"

definition old_blob :: blob where
  "old_blob = \<lparr>blob_name = None, blob_type = ''image/png'', blob_text = ''old-bytes''\<rparr>"

definition race_env :: env where
  "race_env =
     online_env\<lparr>storageDownload := (\<lambda>p. if p = ''u1/k/1600000000000-k.bin''
        then Inr \<lparr>dl_data = Some old_blob, dl_error = False\<rparr>
        else Inr \<lparr>dl_data = None, dl_error = True\<rparr>)\<rparr>"

definition edited_db :: idb where
  "edited_db =
     [''u1__k'' \<mapsto> B sample_blob,
      ''u1__k__remoteVersion'' \<mapsto> J (JStr ''u1/k/1600000000000-k.bin'')]"

definition listing_denied_env :: env where
  "listing_denied_env = online_env\<lparr>storageList := (\<lambda>_. Inr \<lparr>list_data = None, list_error = True\<rparr>)\<rparr>"

definition stale_db :: idb where
  "stale_db =
     [''u1__k'' \<mapsto> J (JObj []),
      ''u1__k__remoteVersion'' \<mapsto> J (JStr ''u1/k/1600000000000-k.bin'')]"

text \<open>No signed-in user at all; another signed-in user; two files uploaded within the same
  millisecond, \<open>b.png\<close> first; the folder once both are stored.\<close>

definition anon_env :: env where
  "anon_env = offline_env\<lparr>currentUser := None, authSession := Inr None\<rparr>"

definition other_env :: env where
  "other_env = online_env\<lparr>currentUser := Some ''u2''\<rparr>"

definition first_file :: blob where
  "first_file = \<lparr>blob_name = Some ''b.png'', blob_type = ''image/png'', blob_text = ''first''\<rparr>"

definition second_file :: blob where
  "second_file = \<lparr>blob_name = Some ''a.png'', blob_type = ''image/png'', blob_text = ''second''\<rparr>"

definition both_listed_env :: env where
  "both_listed_env =
     online_env\<lparr>storageList := (\<lambda>_. Inr \<lparr>list_data =
        Some [\<lparr>name = ''1700000000000-b.png''\<rparr>, \<lparr>name = ''1700000000000-a.png''\<rparr>],
        list_error = False\<rparr>)\<rparr>"

definition two_versions :: "item list" where
  "two_versions = [\<lparr>name = ''1700000000100-k.bin''\<rparr>, \<lparr>name = ''1700000000000-k.bin''\<rparr>]"

definition two_versions_env :: env where
  "two_versions_env =
     online_env\<lparr>storageList := (\<lambda>_. Inr \<lparr>list_data = Some two_versions, list_error = False\<rparr>)\<rparr>"

definition latest_info :: version_info where
  "latest_info = \<lparr>version = ''u1/k/1700000000000-k.bin'', path = ''u1/k/1700000000000-k.bin'', legacy = False\<rparr>"

section \<open>Scoped keys\<close>

lemma scoped_ne_marker:
  "fst (withUserScope e (versionKey key)) \<noteq> fst (withUserScope e key)"
  by (simp add: withUserScope_def versionKey_def VERSION_SUFFIX_def split: option.splits)

lemma scoped_ne_key:
  "snd (withUserScope e key) \<noteq> None \<Longrightarrow> fst (withUserScope e key) \<noteq> key"
  by (auto simp: withUserScope_def split: option.splits if_splits)

lemma marker_ne_key:
  "fst (withUserScope e (versionKey key)) \<noteq> key"
  by (auto simp: withUserScope_def versionKey_def VERSION_SUFFIX_def split: option.splits if_splits
      dest: arg_cong [where f = length])

lemma scope_anon:
  "snd (withUserScope e key) = None \<Longrightarrow> fst (withUserScope e key) = key"
  by (auto simp: withUserScope_def split: option.splits if_splits)

section \<open>Local reads\<close>

lemma load_scoped_present:
  assumes "withUserScope e key = (sk, user)" "present (db sk)"
  shows "loadLocalValue e key db = ((db sk, sk, user), db)"
  using assms by (simp add: loadLocalValue_def Let_def)

lemma migrate_first:
  assumes "withUserScope e key = (sk, Some u)" "present (db key)" "\<not> present (db sk)"
  shows "loadLocalValue e key db = ((db key, sk, Some u), (db(sk := db key))(key := None))"
  using assms scoped_ne_key [of e key] by (simp add: loadLocalValue_def Let_def)

lemma loadLocalBlob_present:
  "present (db (fst (withUserScope e key))) \<Longrightarrow>
   loadLocalBlob e key db = (db (fst (withUserScope e key)), db)"
  by (cases "withUserScope e key") (simp add: loadLocalBlob_def load_scoped_present)

section \<open>Saving\<close>

lemma saveBlob_scoped:
  "fst (snd (saveBlob e key b db)) (fst (withUserScope e key)) = Some (B b)"
  using scoped_ne_marker [of e key]
  by (simp add: saveBlob_def setStoredVersion_def Let_def
      split: sum.splits option.splits prod.splits)

lemma saveBlob_returns:
  "fst (saveBlob e key b db) = Inr ()"
  by (simp add: saveBlob_def Let_def split: sum.splits option.splits prod.splits)

text \<open>
  \<^bold>\<open>C1\<close> (local durability floor). For every key and blob, whatever the session and the remote
  store answer (so also when every remote operation fails or there is no session),
  \<^verbatim>\<open>saveBlob(key, B)\<close> completes without an error and \<^verbatim>\<open>loadLocalBlob(key)\<close> on the cache it
  leaves returns \<open>B\<close>.
\<close>

theorem saveBlob_local_durability:
  "fst (saveBlob e key b db) = Inr ()
   \<and> fst (loadLocalBlob e key (fst (snd (saveBlob e key b db)))) = Some (B b)"
proof -
  have "present (fst (snd (saveBlob e key b db)) (fst (withUserScope e key)))"
    by (simp add: saveBlob_scoped present_def)
  then show ?thesis
    by (simp add: loadLocalBlob_present saveBlob_scoped saveBlob_returns)
qed

lemma saveBlob_marker_frame:
  "authSession e = Inr None \<or> isl (authSession e)
     \<or> isl (fst (uploadAsset e key (Some b) (if blob_type b \<noteq> [] then Some (blob_type b) else None)))
   \<Longrightarrow> fst (saveBlob e key b db) = Inr ()
       \<and> getStoredVersion e key (fst (snd (saveBlob e key b db))) = getStoredVersion e key db"
  using scoped_ne_marker [of e key]
  by (auto simp: saveBlob_def getStoredVersion_def Let_def
      split: sum.splits option.splits prod.splits)

lemma saveJson_marker_frame:
  "authSession e = Inr None \<or> isl (authSession e) \<or> isl (fst (uploadJsonAsset e key d))
   \<Longrightarrow> fst (saveJson e key d db) = Inr ()
       \<and> getStoredVersion e key (fst (snd (saveJson e key d db))) = getStoredVersion e key db"
  using scoped_ne_marker [of e key]
  by (auto simp: saveJson_def getStoredVersion_def Let_def
      split: sum.splits option.splits prod.splits)

text \<open>
  \<^bold>\<open>C6\<close> (marker frame on a failed push). If there is no session, or asking for the session
  throws, or the upload throws, then \<^verbatim>\<open>saveBlob\<close> and \<^verbatim>\<open>saveJson\<close> still return normally and the
  version marker stored for the key is what it was before the call.
\<close>

theorem failed_push_keeps_marker:
  "(authSession e = Inr None \<or> isl (authSession e)
      \<or> isl (fst (uploadAsset e key (Some b) (if blob_type b \<noteq> [] then Some (blob_type b) else None)))
    \<longrightarrow> fst (saveBlob e key b db) = Inr ()
        \<and> getStoredVersion e key (fst (snd (saveBlob e key b db))) = getStoredVersion e key db)
   \<and> (authSession e = Inr None \<or> isl (authSession e) \<or> isl (fst (uploadJsonAsset e key d))
    \<longrightarrow> fst (saveJson e key d db) = Inr ()
        \<and> getStoredVersion e key (fst (snd (saveJson e key d db))) = getStoredVersion e key db)"
  using saveBlob_marker_frame [of e key b db] saveJson_marker_frame [of e key d db]
  by blast

theorem failed_push_keeps_marker_witness:
  "isl (fst (uploadAsset offline_env ''k'' (Some sample_blob)
        (if blob_type sample_blob \<noteq> [] then Some (blob_type sample_blob) else None)))
   \<and> isl (fst (uploadJsonAsset offline_env ''k'' (JObj [])))
   \<and> getStoredVersion offline_env ''k'' synced_db = Some (J (JStr ''u1/k/1700000000000-k.bin''))
   \<and> fst (saveBlob offline_env ''k'' sample_blob synced_db) = Inr ()
   \<and> getStoredVersion offline_env ''k'' (fst (snd (saveBlob offline_env ''k'' sample_blob synced_db)))
       = getStoredVersion offline_env ''k'' synced_db
   \<and> fst (saveJson offline_env ''k'' (JObj []) synced_db) = Inr ()
   \<and> getStoredVersion offline_env ''k'' (fst (snd (saveJson offline_env ''k'' (JObj []) synced_db)))
       = getStoredVersion offline_env ''k'' synced_db"
proof -
  have h: "isl (fst (uploadAsset offline_env ''k'' (Some sample_blob)
        (if blob_type sample_blob \<noteq> [] then Some (blob_type sample_blob) else None)))"
    by (simp add: uploadAsset_def getUserId_def offline_env_def Let_def)
  have j: "isl (fst (uploadJsonAsset offline_env ''k'' (JObj [])))"
    by (simp add: uploadJsonAsset_def uploadAsset_def getUserId_def offline_env_def Let_def)
  have m: "getStoredVersion offline_env ''k'' synced_db = Some (J (JStr ''u1/k/1700000000000-k.bin''))"
    by (simp add: getStoredVersion_def withUserScope_def versionKey_def VERSION_SUFFIX_def
        offline_env_def synced_db_def)
  note c = failed_push_keeps_marker [of offline_env "''k''" sample_blob synced_db "JObj []"]
  show ?thesis
    using h j m c by blast
qed

section \<open>Migration of the unscoped key\<close>

text \<open>
  \<^bold>\<open>C7\<close> (legacy migration idempotence). For a signed-in owner and a key with a value under the
  unscoped key and none under the owner-scoped key: the first local load returns that value
  and leaves the unscoped key empty; the second load returns the same value and changes
  nothing. \<^verbatim>\<open>loadLocalBlob\<close> and \<^verbatim>\<open>loadLocalJson\<close> alike.
\<close>

theorem legacy_migration_idempotent:
  assumes "currentUser e = Some u" "u \<noteq> []" "present (db key)"
    "\<not> present (db (fst (withUserScope e key)))"
  shows "fst (loadLocalBlob e key db) = db key
    \<and> snd (loadLocalBlob e key db) key = None
    \<and> loadLocalBlob e key (snd (loadLocalBlob e key db)) = (db key, snd (loadLocalBlob e key db))
    \<and> fst (loadLocalJson e key db) = db key
    \<and> snd (loadLocalJson e key db) key = None
    \<and> loadLocalJson e key (snd (loadLocalJson e key db)) = (db key, snd (loadLocalJson e key db))"
proof -
  define sk where "sk = fst (withUserScope e key)"
  define db1 where "db1 = (db(sk := db key))(key := None)"
  have scope: "withUserScope e key = (sk, Some u)"
    using assms(1,2) by (simp add: sk_def withUserScope_def)
  have ne: "sk \<noteq> key"
    using scope scoped_ne_key [of e key] by simp
  have first: "loadLocalValue e key db = ((db key, sk, Some u), db1)"
    unfolding db1_def using scope assms(3) assms(4) [folded sk_def] by (rule migrate_first)
  have at_sk: "db1 sk = db key"
    using ne by (simp add: db1_def)
  then have "present (db1 sk)"
    using assms(3) by simp
  with scope have "loadLocalValue e key db1 = ((db1 sk, sk, Some u), db1)"
    by (rule load_scoped_present)
  then have second: "loadLocalValue e key db1 = ((db key, sk, Some u), db1)"
    by (simp only: at_sk)
  have gone: "db1 key = None"
    by (simp add: db1_def)
  show ?thesis
    by (simp add: loadLocalBlob_def loadLocalJson_def first second gone)
qed

theorem legacy_migration_idempotent_witness:
  "currentUser offline_env = Some ''u1'' \<and> ''u1'' \<noteq> [] \<and> present (legacy_db ''k'')
   \<and> \<not> present (legacy_db (fst (withUserScope offline_env ''k'')))
   \<and> legacy_db ''k'' = Some (B sample_blob)
   \<and> fst (loadLocalBlob offline_env ''k'' legacy_db) = legacy_db ''k''
   \<and> snd (loadLocalBlob offline_env ''k'' legacy_db) ''k'' = None
   \<and> loadLocalBlob offline_env ''k'' (snd (loadLocalBlob offline_env ''k'' legacy_db))
       = (legacy_db ''k'', snd (loadLocalBlob offline_env ''k'' legacy_db))"
proof -
  have h1: "currentUser offline_env = Some ''u1''" by (simp add: offline_env_def)
  have h2: "''u1'' \<noteq> []" by simp
  have h3: "present (legacy_db ''k'')" by (simp add: present_def legacy_db_def)
  have h4: "\<not> present (legacy_db (fst (withUserScope offline_env ''k'')))"
    by (simp add: present_def withUserScope_def offline_env_def legacy_db_def)
  have v: "legacy_db ''k'' = Some (B sample_blob)" by (simp add: legacy_db_def)
  note c = legacy_migration_idempotent [of offline_env "''u1''" legacy_db "''k''", OF h1 h2 h3 h4]
  show ?thesis
    using h1 h2 h3 h4 v c by blast
qed

section \<open>Removal\<close>

lemma removeKey_v1_local:
  "removeKey_v1 e key db = (Inr (), (db(fst (withUserScope e key) := None))
      (fst (withUserScope e (versionKey key)) := None), snd (snd (removeKey_v1 e key db)))"
  by (simp add: removeKey_v1_def Let_def split: sum.splits option.splits)

lemma removeKey_v2_local:
  "removeKey_v2 e key db = (Inr (), (db(fst (withUserScope e key) := None))
      (fst (withUserScope e (versionKey key)) := None), snd (snd (removeKey_v2 e key db)))"
  by (simp add: removeKey_v2_def Let_def split: sum.splits option.splits)

lemma load_after_delete:
  assumes "snd (withUserScope e key) \<noteq> None \<longrightarrow> \<not> present (db key)"
  shows "fst (loadLocalBlob e key ((db(fst (withUserScope e key) := None))
      (fst (withUserScope e (versionKey key)) := None))) = None"
proof (cases "withUserScope e key")
  case (Pair sk user)
  show ?thesis
  proof (cases user)
    case None
    then have "sk = key" using Pair scope_anon [of e key] by simp
    then show ?thesis using Pair None
      by (simp add: loadLocalBlob_def loadLocalValue_def Let_def present_def)
  next
    case (Some u)
    then have ne: "sk \<noteq> key" using Pair scoped_ne_key [of e key] by simp
    have np: "\<not> present (db key)" using assms Pair Some by simp
    show ?thesis using Pair Some ne np marker_ne_key [of e key]
      by (auto simp: loadLocalBlob_def loadLocalValue_def Let_def present_def)
  qed
qed

text \<open>
  \<^bold>\<open>C10\<close> (unconditional local removal). \<^verbatim>\<open>removeKey\<close> (both revisions) returns normally
  whatever the session and the remote store do; afterwards the owner-scoped value and its
  version marker are gone, and a local load returns \<^verbatim>\<open>undefined\<close>, provided that for a
  signed-in user no value sits under the unscoped key.
\<close>

theorem removeKey_unconditional:
  assumes "snd (withUserScope e key) \<noteq> None \<longrightarrow> \<not> present (db key)"
  shows "fst (removeKey_v1 e key db) = Inr ()
    \<and> fst (snd (removeKey_v1 e key db)) (fst (withUserScope e key)) = None
    \<and> getStoredVersion e key (fst (snd (removeKey_v1 e key db))) = None
    \<and> fst (loadLocalBlob e key (fst (snd (removeKey_v1 e key db)))) = None
    \<and> fst (removeKey_v2 e key db) = Inr ()
    \<and> fst (snd (removeKey_v2 e key db)) (fst (withUserScope e key)) = None
    \<and> getStoredVersion e key (fst (snd (removeKey_v2 e key db))) = None
    \<and> fst (loadLocalBlob e key (fst (snd (removeKey_v2 e key db)))) = None"
proof -
  let ?db' = "(db(fst (withUserScope e key) := None)) (fst (withUserScope e (versionKey key)) := None)"
  have 1: "fst (removeKey_v1 e key db) = Inr ()" "fst (snd (removeKey_v1 e key db)) = ?db'"
    by (subst removeKey_v1_local, simp)+
  have 2: "fst (removeKey_v2 e key db) = Inr ()" "fst (snd (removeKey_v2 e key db)) = ?db'"
    by (subst removeKey_v2_local, simp)+
  have 3: "fst (loadLocalBlob e key ?db') = None"
    using assms by (rule load_after_delete)
  have 4: "?db' (fst (withUserScope e key)) = None"
    by simp
  have 5: "getStoredVersion e key ?db' = None"
    by (simp add: getStoredVersion_def)
  show ?thesis
    unfolding 1 2 using 3 4 5 by simp
qed

theorem removeKey_unconditional_witness:
  "snd (withUserScope offline_env ''k'') = Some ''u1'' \<and> \<not> present (synced_db ''k'')
   \<and> present (synced_db (fst (withUserScope offline_env ''k'')))
   \<and> fst (removeKey_v2 offline_env ''k'' synced_db) = Inr ()
   \<and> getStoredVersion offline_env ''k'' (fst (snd (removeKey_v2 offline_env ''k'' synced_db))) = None
   \<and> fst (loadLocalBlob offline_env ''k'' (fst (snd (removeKey_v2 offline_env ''k'' synced_db)))) = None"
proof -
  have u: "snd (withUserScope offline_env ''k'') = Some ''u1''"
    by (simp add: withUserScope_def offline_env_def)
  have n: "\<not> present (synced_db ''k'')"
    by (simp add: present_def synced_db_def)
  have p: "present (synced_db (fst (withUserScope offline_env ''k'')))"
    by (simp add: present_def synced_db_def withUserScope_def offline_env_def)
  from n have h: "snd (withUserScope offline_env ''k'') \<noteq> None \<longrightarrow> \<not> present (synced_db ''k'')"
    by simp
  note c = removeKey_unconditional [of offline_env "''k''" synced_db, OF h]
  show ?thesis
    using u n p c by blast
qed

section \<open>Reconciliation\<close>

lemma listLatest_Some:
  "listLatestVersionPath e u k = (Some p, ev) \<Longrightarrow> p \<noteq> [] \<and> ev = [Listed (u @ ''/'' @ k)]"
  by (auto simp: listLatestVersionPath_def Let_def split: sum.splits option.splits if_splits list.splits)

lemma getLatest_session:
  "fst (getLatestAssetVersion e key) = Inr (Some rv) \<Longrightarrow> \<exists>s. authSession e = Inr (Some s)"
  by (auto simp: getLatestAssetVersion_def getUserId_def split: sum.splits option.splits if_splits)

lemma getLatest_version_nonempty:
  "fst (getLatestAssetVersion e key) = Inr (Some rv) \<Longrightarrow> version rv \<noteq> []"
  by (auto simp: getLatestAssetVersion_def getUserId_def DISABLE_LEGACY_FALLBACK_def
       split: sum.splits option.splits if_splits prod.splits dest: listLatest_Some)

lemma getLatest_events:
  "fst (getLatestAssetVersion e key) = Inr (Some rv) \<Longrightarrow>
   \<exists>folder. snd (getLatestAssetVersion e key) = [Listed folder]"
  by (auto simp: getLatestAssetVersion_def getUserId_def DISABLE_LEGACY_FALLBACK_def
       split: sum.splits option.splits if_splits prod.splits dest: listLatest_Some)

lemma same_version_refl:
  "v \<noteq> [] \<Longrightarrow> same_version (Some (J (JStr v))) v"
  by (simp add: same_version_def)

lemma remotePath_Some:
  "version rv \<noteq> [] \<Longrightarrow> remotePath_of (Some rv) = Some (version rv)"
  by (simp add: remotePath_of_def)

lemma sync_noop:
  assumes "getLatestAssetVersion e key = (Inr (Some rv), ev)" "authSession e = Inr (Some s)"
    "version rv \<noteq> []" "same_version (getStoredVersion e key db) (version rv)"
  shows "syncBlobFromCloud_v1 e key cb db = (NotUpdated, db, ev)"
    "syncJsonFromCloud_v1 e key cb db = (NotUpdated, db, ev)"
    "syncBlobFromCloud_v2 e key cb db = (NotUpdated, db, ev)"
    "syncJsonFromCloud_v2 e key cb db = (NotUpdated, db, ev)"
  using assms
  by (simp_all add: syncBlobFromCloud_v1_def syncJsonFromCloud_v1_def
      syncBlobFromCloud_v2_def syncJsonFromCloud_v2_def remotePath_Some)

text \<open>
  \<^bold>\<open>C3\<close> (cheap no-op on equal versions). When the latest remote path equals the stored
  version marker, each of the four reconcilers returns \<^verbatim>\<open>{ updated: false }\<close>, leaves the
  whole cache (value and marker) as it was, and its only remote call is the one folder
  listing: the callback is not invoked and nothing is downloaded.
\<close>

theorem equal_versions_cheap_noop:
  assumes "fst (getLatestAssetVersion e key) = Inr (Some rv)"
    and "getStoredVersion e key db = Some (J (JStr (version rv)))"
  shows "syncBlobFromCloud_v1 e key cb db = (NotUpdated, db, snd (getLatestAssetVersion e key))
    \<and> syncJsonFromCloud_v1 e key cb db = (NotUpdated, db, snd (getLatestAssetVersion e key))
    \<and> syncBlobFromCloud_v2 e key cb db = (NotUpdated, db, snd (getLatestAssetVersion e key))
    \<and> syncJsonFromCloud_v2 e key cb db = (NotUpdated, db, snd (getLatestAssetVersion e key))
    \<and> (\<exists>folder. snd (getLatestAssetVersion e key) = [Listed folder])"
proof -
  obtain s where s: "authSession e = Inr (Some s)"
    using getLatest_session [OF assms(1)] by blast
  have ne: "version rv \<noteq> []"
    using assms(1) by (rule getLatest_version_nonempty)
  have l: "getLatestAssetVersion e key = (Inr (Some rv), snd (getLatestAssetVersion e key))"
    using assms(1) by (metis prod.collapse)
  have sv: "same_version (getStoredVersion e key db) (version rv)"
    using ne by (simp add: assms(2) same_version_refl)
  show ?thesis
    using sync_noop [OF l s ne sv, of cb] getLatest_events [OF assms(1)] by simp
qed

lemma fetchJson_v2_via_blob:
  "fetchJson_v2 e key lv =
     (case fetchBlob_v2 e key lv of
        (Inl err, ev) \<Rightarrow> (Inl err, ev)
      | (Inr None, ev) \<Rightarrow> (Inr JNull, ev)
      | (Inr (Some b), ev) \<Rightarrow>
          (case jsonParse e (blob_text b) of None \<Rightarrow> (Inr JNull, ev) | Some j \<Rightarrow> (Inr j, ev)))"
  by (auto simp: fetchJson_v2_def fetchBlob_v2_def downloadJsonAsset_def looksLikeFilePath_def
      split: option.splits val.splits json.splits prod.splits sum.splits)

lemma sync_blob_v1_absent:
  "fst (downloadAssetBlob e key) = Inr None \<Longrightarrow>
   fst (syncBlobFromCloud_v1 e key cb db) = NotUpdated \<and> fst (snd (syncBlobFromCloud_v1 e key cb db)) = db"
  by (auto simp: syncBlobFromCloud_v1_def split: sum.splits option.splits prod.splits)

lemma sync_json_v1_null:
  "fst (downloadJsonAsset e key) = Inr JNull \<Longrightarrow>
   fst (syncJsonFromCloud_v1 e key cb db) = NotUpdated \<and> fst (snd (syncJsonFromCloud_v1 e key cb db)) = db"
  by (auto simp: syncJsonFromCloud_v1_def split: sum.splits option.splits prod.splits)

lemma sync_json_v2_null:
  "fst (fetchJson_v2 e key (getStoredVersion e key db)) = Inr JNull \<Longrightarrow>
   fst (syncJsonFromCloud_v2 e key cb db) = NotUpdated \<and> fst (snd (syncJsonFromCloud_v2 e key cb db)) = db"
  by (auto simp: syncJsonFromCloud_v2_def Let_def split: sum.splits option.splits prod.splits)

lemma downloadJson_unparsable:
  "fst (downloadAssetBlob e key) = Inr (Some b) \<Longrightarrow> jsonParse e (blob_text b) = None \<Longrightarrow>
   fst (downloadJsonAsset e key) = Inr JNull"
  by (auto simp: downloadJsonAsset_def split: prod.splits sum.splits option.splits)

lemma fetchJson_v2_unparsable:
  "fst (fetchBlob_v2 e key lv) = Inr (Some b) \<Longrightarrow> jsonParse e (blob_text b) = None \<Longrightarrow>
   fst (fetchJson_v2 e key lv) = Inr JNull"
  by (auto simp: fetchJson_v2_via_blob split: prod.splits sum.splits option.splits)

lemma download_absent_when_latest_unreadable:
  assumes "getUserId e = Inr (Some u)" "fst (listLatestVersionPath e u key) = Some p"
    and "isl (storageDownload e p)
         \<or> (\<exists>r. storageDownload e p = Inr r \<and> (dl_error r \<or> dl_data r = None))"
  shows "fst (downloadAssetBlob e key) = Inr None"
proof (cases "listLatestVersionPath e u key")
  case (Pair lp ev)
  with assms(2) have lp: "lp = Some p" by simp
  show ?thesis
    using assms(1,3) Pair lp
    by (auto simp: downloadAssetBlob_def DISABLE_LEGACY_FALLBACK_def Let_def
        split: sum.splits option.splits)
qed

text \<open>
  \<^bold>\<open>C5\<close> (JSON corruption safety). If the blob that is fetched has a text that
  \<^verbatim>\<open>JSON.parse\<close> rejects, \<^verbatim>\<open>syncJsonFromCloud\<close> (both revisions) returns
  \<^verbatim>\<open>{ updated: false }\<close> and writes nothing to the cache.
\<close>

theorem unparsable_json_keeps_cache:
  "(fst (downloadAssetBlob e key) = Inr (Some b) \<and> jsonParse e (blob_text b) = None \<longrightarrow>
      fst (syncJsonFromCloud_v1 e key cb db) = NotUpdated
      \<and> fst (snd (syncJsonFromCloud_v1 e key cb db)) = db)
   \<and> (fst (fetchBlob_v2 e key (getStoredVersion e key db)) = Inr (Some b)
        \<and> jsonParse e (blob_text b) = None \<longrightarrow>
      fst (syncJsonFromCloud_v2 e key cb db) = NotUpdated
      \<and> fst (snd (syncJsonFromCloud_v2 e key cb db)) = db)"
  using sync_json_v1_null [OF downloadJson_unparsable, of e key b cb db]
    sync_json_v2_null [OF fetchJson_v2_unparsable, of e key db b cb]
  by blast

lemma stored_version_after_set:
  "v \<noteq> [] \<Longrightarrow> getStoredVersion e key (setStoredVersion e key (Some v) db) = Some (J (JStr v))"
  by (simp add: getStoredVersion_def setStoredVersion_def)

lemma stored_version_scoped_write:
  "getStoredVersion e key (db(fst (withUserScope e key) \<mapsto> v)) = getStoredVersion e key db"
  using scoped_ne_marker [of e key] by (simp add: getStoredVersion_def)

lemma scoped_write_twice:
  "(setStoredVersion e key ver (db(fst (withUserScope e key) \<mapsto> v)))(fst (withUserScope e key) \<mapsto> v)
     = setStoredVersion e key ver (db(fst (withUserScope e key) \<mapsto> v))"
  using scoped_ne_marker [of e key]
  by (auto simp: setStoredVersion_def fun_upd_twist split: option.splits)

text \<open>What a reconciliation leaves behind, by its result.\<close>

lemma blob_v1_not_updated:
  "fst (syncBlobFromCloud_v1 e key cb db) = NotUpdated \<Longrightarrow> fst (snd (syncBlobFromCloud_v1 e key cb db)) = db"
  by (auto simp: syncBlobFromCloud_v1_def split: sum.splits option.splits prod.splits if_splits)

lemma blob_v1_updated:
  "fst (syncBlobFromCloud_v1 e key cb db) = Updated v \<Longrightarrow>
   \<exists>rv. fst (getLatestAssetVersion e key) = Inr (Some rv) \<and>
     fst (snd (syncBlobFromCloud_v1 e key cb db))
       = setStoredVersion e key (Some (version rv)) (db(fst (withUserScope e key) \<mapsto> v))"
  by (auto simp: syncBlobFromCloud_v1_def split: sum.splits option.splits prod.splits if_splits)

lemma json_v1_not_updated:
  "fst (syncJsonFromCloud_v1 e key cb db) = NotUpdated \<Longrightarrow> fst (snd (syncJsonFromCloud_v1 e key cb db)) = db"
  by (auto simp: syncJsonFromCloud_v1_def split: sum.splits option.splits prod.splits if_splits)

lemma json_v1_updated:
  "fst (syncJsonFromCloud_v1 e key cb db) = Updated v \<Longrightarrow>
   \<exists>rv. fst (getLatestAssetVersion e key) = Inr (Some rv) \<and>
     fst (snd (syncJsonFromCloud_v1 e key cb db))
       = setStoredVersion e key (Some (version rv)) (db(fst (withUserScope e key) \<mapsto> v))"
  by (auto simp: syncJsonFromCloud_v1_def split: sum.splits option.splits prod.splits if_splits)

lemma blob_v2_not_updated:
  "fst (syncBlobFromCloud_v2 e key cb db) = NotUpdated \<Longrightarrow> fst (snd (syncBlobFromCloud_v2 e key cb db)) = db"
  by (auto simp: syncBlobFromCloud_v2_def Let_def split: sum.splits option.splits prod.splits if_splits)

lemma blob_v2_updated:
  "fst (syncBlobFromCloud_v2 e key cb db) = Updated v \<Longrightarrow>
   \<exists>rvo. fst (getLatestAssetVersion e key) = Inr rvo \<and>
     fst (snd (syncBlobFromCloud_v2 e key cb db))
       = setStoredVersion e key (remotePath_of rvo) (db(fst (withUserScope e key) \<mapsto> v))"
  by (auto simp: syncBlobFromCloud_v2_def Let_def split: sum.splits option.splits prod.splits if_splits)

lemma json_v2_not_updated:
  "fst (syncJsonFromCloud_v2 e key cb db) = NotUpdated \<Longrightarrow> fst (snd (syncJsonFromCloud_v2 e key cb db)) = db"
  by (auto simp: syncJsonFromCloud_v2_def Let_def split: sum.splits option.splits prod.splits if_splits)

lemma json_v2_updated:
  "fst (syncJsonFromCloud_v2 e key cb db) = Updated v \<Longrightarrow>
   \<exists>rvo. fst (getLatestAssetVersion e key) = Inr rvo \<and>
     fst (snd (syncJsonFromCloud_v2 e key cb db))
       = setStoredVersion e key (remotePath_of rvo) (db(fst (withUserScope e key) \<mapsto> v))"
  by (auto simp: syncJsonFromCloud_v2_def Let_def split: sum.splits option.splits prod.splits if_splits)

text \<open>The second revision reads the cache only through the version marker.\<close>

lemma blob_v2_reads_marker:
  "getStoredVersion e key db' = getStoredVersion e key db \<Longrightarrow>
   fst (syncBlobFromCloud_v2 e key cb db') = fst (syncBlobFromCloud_v2 e key cb db)"
  by (auto simp: syncBlobFromCloud_v2_def Let_def split: sum.splits option.splits prod.splits if_splits)

lemma json_v2_reads_marker:
  "getStoredVersion e key db' = getStoredVersion e key db \<Longrightarrow>
   fst (syncJsonFromCloud_v2 e key cb db') = fst (syncJsonFromCloud_v2 e key cb db)"
  by (auto simp: syncJsonFromCloud_v2_def Let_def split: sum.splits option.splits prod.splits if_splits)

lemma second_after_update:
  assumes "fst (getLatestAssetVersion e key) = Inr (Some rv)"
  shows "syncBlobFromCloud_v1 e key cb (setStoredVersion e key (Some (version rv)) db)
      = (NotUpdated, setStoredVersion e key (Some (version rv)) db, snd (getLatestAssetVersion e key))"
    "syncJsonFromCloud_v1 e key cb (setStoredVersion e key (Some (version rv)) db)
      = (NotUpdated, setStoredVersion e key (Some (version rv)) db, snd (getLatestAssetVersion e key))"
    "syncBlobFromCloud_v2 e key cb (setStoredVersion e key (Some (version rv)) db)
      = (NotUpdated, setStoredVersion e key (Some (version rv)) db, snd (getLatestAssetVersion e key))"
    "syncJsonFromCloud_v2 e key cb (setStoredVersion e key (Some (version rv)) db)
      = (NotUpdated, setStoredVersion e key (Some (version rv)) db, snd (getLatestAssetVersion e key))"
proof -
  obtain s where s: "authSession e = Inr (Some s)"
    using getLatest_session [OF assms(1)] by blast
  have ne: "version rv \<noteq> []"
    using assms(1) by (rule getLatest_version_nonempty)
  have l: "getLatestAssetVersion e key = (Inr (Some rv), snd (getLatestAssetVersion e key))"
    using assms(1) by (metis prod.collapse)
  have sv: "same_version (getStoredVersion e key (setStoredVersion e key (Some (version rv)) db)) (version rv)"
    using ne by (simp add: stored_version_after_set same_version_refl)
  note n = sync_noop [OF l s ne sv]
  show "syncBlobFromCloud_v1 e key cb (setStoredVersion e key (Some (version rv)) db)
      = (NotUpdated, setStoredVersion e key (Some (version rv)) db, snd (getLatestAssetVersion e key))"
    by (rule n(1))
  show "syncJsonFromCloud_v1 e key cb (setStoredVersion e key (Some (version rv)) db)
      = (NotUpdated, setStoredVersion e key (Some (version rv)) db, snd (getLatestAssetVersion e key))"
    by (rule n(2))
  show "syncBlobFromCloud_v2 e key cb (setStoredVersion e key (Some (version rv)) db)
      = (NotUpdated, setStoredVersion e key (Some (version rv)) db, snd (getLatestAssetVersion e key))"
    by (rule n(3))
  show "syncJsonFromCloud_v2 e key cb (setStoredVersion e key (Some (version rv)) db)
      = (NotUpdated, setStoredVersion e key (Some (version rv)) db, snd (getLatestAssetVersion e key))"
    by (rule n(4))
qed

lemma blob_v1_idem:
  "fst (second_pass (syncBlobFromCloud_v1 e key cb) db) = NotUpdated
   \<and> fst (snd (second_pass (syncBlobFromCloud_v1 e key cb) db)) = fst (snd (syncBlobFromCloud_v1 e key cb db))"
proof (cases "fst (syncBlobFromCloud_v1 e key cb db)")
  case NotUpdated
  then show ?thesis
    by (simp add: second_pass_def blob_v1_not_updated)
next
  case (Updated v)
  then obtain rv where "fst (getLatestAssetVersion e key) = Inr (Some rv)"
    "fst (snd (syncBlobFromCloud_v1 e key cb db))
       = setStoredVersion e key (Some (version rv)) (db(fst (withUserScope e key) \<mapsto> v))"
    using blob_v1_updated by blast
  then show ?thesis
    by (simp add: second_pass_def second_after_update [of e key rv])
qed

lemma json_v1_idem:
  "fst (second_pass (syncJsonFromCloud_v1 e key cb) db) = NotUpdated
   \<and> fst (snd (second_pass (syncJsonFromCloud_v1 e key cb) db)) = fst (snd (syncJsonFromCloud_v1 e key cb db))"
proof (cases "fst (syncJsonFromCloud_v1 e key cb db)")
  case NotUpdated
  then show ?thesis
    by (simp add: second_pass_def json_v1_not_updated)
next
  case (Updated v)
  then obtain rv where "fst (getLatestAssetVersion e key) = Inr (Some rv)"
    "fst (snd (syncJsonFromCloud_v1 e key cb db))
       = setStoredVersion e key (Some (version rv)) (db(fst (withUserScope e key) \<mapsto> v))"
    using json_v1_updated by blast
  then show ?thesis
    by (simp add: second_pass_def second_after_update [of e key rv])
qed

lemma blob_v2_idem:
  "fst (snd (second_pass (syncBlobFromCloud_v2 e key cb) db)) = fst (snd (syncBlobFromCloud_v2 e key cb db))
   \<and> (fst (getLatestAssetVersion e key) \<noteq> Inr None \<or> fst (syncBlobFromCloud_v2 e key cb db) = NotUpdated
        \<longrightarrow> fst (second_pass (syncBlobFromCloud_v2 e key cb) db) = NotUpdated)"
proof (cases "fst (syncBlobFromCloud_v2 e key cb db)")
  case NotUpdated
  then show ?thesis
    by (simp add: second_pass_def blob_v2_not_updated)
next
  case (Updated v)
  then obtain rvo where l: "fst (getLatestAssetVersion e key) = Inr rvo"
    and d: "fst (snd (syncBlobFromCloud_v2 e key cb db))
       = setStoredVersion e key (remotePath_of rvo) (db(fst (withUserScope e key) \<mapsto> v))"
    using blob_v2_updated by blast
  show ?thesis
  proof (cases rvo)
    case (Some rv)
    have "remotePath_of rvo = Some (version rv)"
      using l Some by (simp add: remotePath_Some getLatest_version_nonempty)
    then show ?thesis
      using l d Some by (simp add: second_pass_def second_after_update [of e key rv])
  next
    case None
    define db1 where "db1 = db(fst (withUserScope e key) \<mapsto> v)"
    have d1: "fst (snd (syncBlobFromCloud_v2 e key cb db)) = db1"
      using d None by (simp add: db1_def remotePath_of_def setStoredVersion_def)
    have "getStoredVersion e key db1 = getStoredVersion e key db"
      by (simp add: db1_def stored_version_scoped_write)
    then have "fst (syncBlobFromCloud_v2 e key cb db1) = fst (syncBlobFromCloud_v2 e key cb db)"
      by (rule blob_v2_reads_marker)
    then have r: "fst (syncBlobFromCloud_v2 e key cb db1) = Updated v"
      using Updated by simp
    then obtain rvo' where "fst (getLatestAssetVersion e key) = Inr rvo'"
      "fst (snd (syncBlobFromCloud_v2 e key cb db1))
         = setStoredVersion e key (remotePath_of rvo') (db1(fst (withUserScope e key) \<mapsto> v))"
      using blob_v2_updated by blast
    then have "fst (snd (syncBlobFromCloud_v2 e key cb db1)) = db1"
      using l None by (simp add: db1_def remotePath_of_def setStoredVersion_def)
    then show ?thesis
      using l None Updated by (simp add: second_pass_def d1)
  qed
qed

lemma json_v2_idem:
  "fst (snd (second_pass (syncJsonFromCloud_v2 e key cb) db)) = fst (snd (syncJsonFromCloud_v2 e key cb db))
   \<and> (fst (getLatestAssetVersion e key) \<noteq> Inr None \<or> fst (syncJsonFromCloud_v2 e key cb db) = NotUpdated
        \<longrightarrow> fst (second_pass (syncJsonFromCloud_v2 e key cb) db) = NotUpdated)"
proof (cases "fst (syncJsonFromCloud_v2 e key cb db)")
  case NotUpdated
  then show ?thesis
    by (simp add: second_pass_def json_v2_not_updated)
next
  case (Updated v)
  then obtain rvo where l: "fst (getLatestAssetVersion e key) = Inr rvo"
    and d: "fst (snd (syncJsonFromCloud_v2 e key cb db))
       = setStoredVersion e key (remotePath_of rvo) (db(fst (withUserScope e key) \<mapsto> v))"
    using json_v2_updated by blast
  show ?thesis
  proof (cases rvo)
    case (Some rv)
    have "remotePath_of rvo = Some (version rv)"
      using l Some by (simp add: remotePath_Some getLatest_version_nonempty)
    then show ?thesis
      using l d Some by (simp add: second_pass_def second_after_update [of e key rv])
  next
    case None
    define db1 where "db1 = db(fst (withUserScope e key) \<mapsto> v)"
    have d1: "fst (snd (syncJsonFromCloud_v2 e key cb db)) = db1"
      using d None by (simp add: db1_def remotePath_of_def setStoredVersion_def)
    have "getStoredVersion e key db1 = getStoredVersion e key db"
      by (simp add: db1_def stored_version_scoped_write)
    then have "fst (syncJsonFromCloud_v2 e key cb db1) = fst (syncJsonFromCloud_v2 e key cb db)"
      by (rule json_v2_reads_marker)
    then have r: "fst (syncJsonFromCloud_v2 e key cb db1) = Updated v"
      using Updated by simp
    then obtain rvo' where "fst (getLatestAssetVersion e key) = Inr rvo'"
      "fst (snd (syncJsonFromCloud_v2 e key cb db1))
         = setStoredVersion e key (remotePath_of rvo') (db1(fst (withUserScope e key) \<mapsto> v))"
      using json_v2_updated by blast
    then have "fst (snd (syncJsonFromCloud_v2 e key cb db1)) = db1"
      using l None by (simp add: db1_def remotePath_of_def setStoredVersion_def)
    then show ?thesis
      using l None Updated by (simp add: second_pass_def d1)
  qed
qed

text \<open>
  \<^bold>\<open>C2\<close> (idempotent reconciliation), as the code has it. With the session, the remote
  store and the callback answering the same both times: in the first revision the second
  pass always returns \<^verbatim>\<open>{ updated: false }\<close> and leaves the cache as the first pass left it.
  In the second revision the cache is likewise the same after both passes, and the second
  pass returns \<^verbatim>\<open>{ updated: false }\<close> whenever the listing gave a latest path (or threw) or
  the first pass itself returned \<^verbatim>\<open>{ updated: false }\<close>. The case left out is the one the
  second revision adds on purpose: no latest path from the listing, and the blob fetched
  again by the stored path on every pass.
\<close>

theorem reconcile_twice:
  "fst (second_pass (syncBlobFromCloud_v1 e key cb) db) = NotUpdated
   \<and> fst (snd (second_pass (syncBlobFromCloud_v1 e key cb) db)) = fst (snd (syncBlobFromCloud_v1 e key cb db))
   \<and> fst (second_pass (syncJsonFromCloud_v1 e key cb) db) = NotUpdated
   \<and> fst (snd (second_pass (syncJsonFromCloud_v1 e key cb) db)) = fst (snd (syncJsonFromCloud_v1 e key cb db))
   \<and> fst (snd (second_pass (syncBlobFromCloud_v2 e key cb) db)) = fst (snd (syncBlobFromCloud_v2 e key cb db))
   \<and> (fst (getLatestAssetVersion e key) \<noteq> Inr None \<or> fst (syncBlobFromCloud_v2 e key cb db) = NotUpdated
        \<longrightarrow> fst (second_pass (syncBlobFromCloud_v2 e key cb) db) = NotUpdated)
   \<and> fst (snd (second_pass (syncJsonFromCloud_v2 e key cb) db)) = fst (snd (syncJsonFromCloud_v2 e key cb db))
   \<and> (fst (getLatestAssetVersion e key) \<noteq> Inr None \<or> fst (syncJsonFromCloud_v2 e key cb db) = NotUpdated
        \<longrightarrow> fst (second_pass (syncJsonFromCloud_v2 e key cb) db) = NotUpdated)"
  using blob_v1_idem [of e key cb db] json_v1_idem [of e key cb db]
    blob_v2_idem [of e key cb db] json_v2_idem [of e key cb db]
  by blast

lemma online_env_fields:
  "currentUser online_env = Some ''u1''"
  "authSession online_env = Inr (Some \<lparr>session_user_id = Some ''u1''\<rparr>)"
  "storageList online_env ''u1/k''
     = Inr \<lparr>list_data = Some [\<lparr>name = ''1700000000000-k.bin''\<rparr>], list_error = False\<rparr>"
  "storageDownload online_env p = Inr \<lparr>dl_data = Some sample_blob, dl_error = False\<rparr>"
  "jsonParse online_env t = (if t = ''{}'' then Some (JObj []) else None)"
  by (simp_all add: online_env_def)

lemma race_env_fields:
  "currentUser race_env = Some ''u1''"
  "authSession race_env = Inr (Some \<lparr>session_user_id = Some ''u1''\<rparr>)"
  "storageList race_env ''u1/k''
     = Inr \<lparr>list_data = Some [\<lparr>name = ''1700000000000-k.bin''\<rparr>], list_error = False\<rparr>"
  "storageDownload race_env ''u1/k/1700000000000-k.bin'' = Inr \<lparr>dl_data = None, dl_error = True\<rparr>"
  "storageDownload race_env ''u1/k/1600000000000-k.bin'' = Inr \<lparr>dl_data = Some old_blob, dl_error = False\<rparr>"
  by (simp_all add: race_env_def online_env_def)

lemma listing_denied_env_fields:
  "currentUser listing_denied_env = Some ''u1''"
  "authSession listing_denied_env = Inr (Some \<lparr>session_user_id = Some ''u1''\<rparr>)"
  "storageList listing_denied_env f = Inr \<lparr>list_data = None, list_error = True\<rparr>"
  "storageDownload listing_denied_env p = Inr \<lparr>dl_data = Some sample_blob, dl_error = False\<rparr>"
  by (simp_all add: listing_denied_env_def online_env_def)

lemma online_latest:
  "getLatestAssetVersion online_env ''k'' = (Inr (Some latest_info), [Listed ''u1/k''])"
  by (simp add: getLatestAssetVersion_def getUserId_def listLatestVersionPath_def online_env_fields
      js_sort_def normalizeName_def latest_info_def)

lemma race_latest:
  "getLatestAssetVersion race_env ''k'' = (Inr (Some latest_info), [Listed ''u1/k''])"
  by (simp add: getLatestAssetVersion_def getUserId_def listLatestVersionPath_def race_env_fields
      js_sort_def normalizeName_def latest_info_def)

lemma denied_latest:
  "getLatestAssetVersion listing_denied_env ''k'' = (Inr None, [Listed ''u1/k''])"
  by (simp add: getLatestAssetVersion_def getUserId_def listLatestVersionPath_def
      listing_denied_env_fields DISABLE_LEGACY_FALLBACK_def)

lemma u1_marker:
  "currentUser e = Some ''u1'' \<Longrightarrow> getStoredVersion e ''k'' db = db ''u1__k__remoteVersion''"
  by (simp add: getStoredVersion_def withUserScope_def versionKey_def VERSION_SUFFIX_def)

lemma u1_scope:
  "currentUser e = Some ''u1'' \<Longrightarrow> fst (withUserScope e ''k'') = ''u1__k''"
  by (simp add: withUserScope_def)

lemma stale_marker:
  "stale_db ''u1__k__remoteVersion'' = Some (J (JStr ''u1/k/1600000000000-k.bin''))"
  by (simp add: stale_db_def)

lemma synced_marker:
  "synced_db ''u1__k__remoteVersion'' = Some (J (JStr ''u1/k/1700000000000-k.bin''))"
  by (simp add: synced_db_def)

lemma stale_looks_like_file:
  "looksLikeFilePath ''k'' (Some (J (JStr ''u1/k/1600000000000-k.bin'')))"
  by (simp add: looksLikeFilePath_def endsWith_def last_segment_def)

lemma synced_looks_like_file:
  "looksLikeFilePath ''k'' (Some (J (JStr ''u1/k/1700000000000-k.bin'')))"
  by (simp add: looksLikeFilePath_def endsWith_def last_segment_def)

theorem equal_versions_cheap_noop_witness:
  "fst (getLatestAssetVersion online_env ''k'') = Inr (Some latest_info)
   \<and> getStoredVersion online_env ''k'' synced_db = Some (J (JStr (version latest_info)))
   \<and> syncBlobFromCloud_v2 online_env ''k'' (Some (Inr ())) synced_db = (NotUpdated, synced_db, [Listed ''u1/k''])"
proof -
  have h1: "fst (getLatestAssetVersion online_env ''k'') = Inr (Some latest_info)"
    by (simp add: online_latest)
  have h2: "getStoredVersion online_env ''k'' synced_db = Some (J (JStr (version latest_info)))"
    by (simp add: u1_marker online_env_fields synced_marker latest_info_def)
  note c = equal_versions_cheap_noop [OF h1 h2, of "Some (Inr ())"]
  show ?thesis
    using h1 h2 c by (simp add: online_latest)
qed

lemma race_list:
  "getUserId race_env = Inr (Some ''u1'')"
  "fst (listLatestVersionPath race_env ''u1'' ''k'') = Some ''u1/k/1700000000000-k.bin''"
  by (simp_all add: getUserId_def listLatestVersionPath_def race_env_fields
      js_sort_def normalizeName_def)

lemma race_download_by_key:
  "fst (downloadAssetBlob race_env ''k'') = Inr None"
proof -
  have "\<exists>r. storageDownload race_env ''u1/k/1700000000000-k.bin'' = Inr r
      \<and> (dl_error r \<or> dl_data r = None)"
    by (simp add: race_env_fields)
  then show ?thesis
    using download_absent_when_latest_unreadable [OF race_list] by blast
qed

lemma edited_marker:
  "edited_db ''u1__k__remoteVersion'' = Some (J (JStr ''u1/k/1600000000000-k.bin''))"
  "edited_db ''u1__k'' = Some (B sample_blob)"
  by (simp_all add: edited_db_def)

lemma race_pass_v2:
  "syncBlobFromCloud_v2 race_env ''k'' None edited_db
     = (Updated (B old_blob),
        edited_db(''u1__k'' \<mapsto> B old_blob,
                  ''u1__k__remoteVersion'' \<mapsto> J (JStr ''u1/k/1700000000000-k.bin'')),
        [Listed ''u1/k'', Downloaded ''u1/k/1600000000000-k.bin''])"
  using stale_looks_like_file
  by (simp add: syncBlobFromCloud_v2_def race_latest u1_marker u1_scope remotePath_of_def notify_def
      fetchBlob_v2_def downloadAssetBlobByPath_def setStoredVersion_def race_env_fields
      edited_marker latest_info_def same_version_def withUserScope_def versionKey_def
      VERSION_SUFFIX_def)

text \<open>
  \<^bold>\<open>C4\<close> (race tolerance) against the code. The listing reports the latest version
  \<open>u1/k/1700000000000-k.bin\<close>, that object can no longer be read, and the cache holds a
  value under the marker of the older object \<open>u1/k/1600000000000-k.bin\<close>, which still
  exists. The first revision of \<^verbatim>\<open>syncBlobFromCloud\<close> does what the claim says: it reads the
  listed object, gets nothing, returns \<^verbatim>\<open>{ updated: false }\<close> and leaves the cache alone. The
  second revision never reads the listed object: it downloads the stored marker path,
  returns \<^verbatim>\<open>{ updated: true }\<close> with the older object, overwrites the cached value with it and
  moves the marker to the listed path it did not read.
\<close>

theorem race_second_revision_overwrites:
  "fst (getLatestAssetVersion race_env ''k'') = Inr (Some latest_info)
   \<and> version latest_info = ''u1/k/1700000000000-k.bin''
   \<and> storageDownload race_env ''u1/k/1700000000000-k.bin'' = Inr \<lparr>dl_data = None, dl_error = True\<rparr>
   \<and> edited_db ''u1__k'' = Some (B sample_blob)
   \<and> getStoredVersion race_env ''k'' edited_db = Some (J (JStr ''u1/k/1600000000000-k.bin''))
   \<and> fst (syncBlobFromCloud_v1 race_env ''k'' None edited_db) = NotUpdated
   \<and> fst (snd (syncBlobFromCloud_v1 race_env ''k'' None edited_db)) = edited_db
   \<and> fst (syncBlobFromCloud_v2 race_env ''k'' None edited_db) = Updated (B old_blob)
   \<and> fst (snd (syncBlobFromCloud_v2 race_env ''k'' None edited_db)) ''u1__k'' = Some (B old_blob)
   \<and> getStoredVersion race_env ''k'' (fst (snd (syncBlobFromCloud_v2 race_env ''k'' None edited_db)))
       = Some (J (JStr ''u1/k/1700000000000-k.bin''))
   \<and> B old_blob \<noteq> B sample_blob"
proof -
  have v1: "fst (syncBlobFromCloud_v1 race_env ''k'' None edited_db) = NotUpdated
      \<and> fst (snd (syncBlobFromCloud_v1 race_env ''k'' None edited_db)) = edited_db"
    using race_download_by_key by (rule sync_blob_v1_absent)
  have m: "getStoredVersion race_env ''k'' edited_db = Some (J (JStr ''u1/k/1600000000000-k.bin''))"
    by (simp add: u1_marker race_env_fields edited_marker)
  have m': "getStoredVersion race_env ''k'' (fst (snd (syncBlobFromCloud_v2 race_env ''k'' None edited_db)))
       = Some (J (JStr ''u1/k/1700000000000-k.bin''))"
    by (simp add: race_pass_v2 u1_marker race_env_fields)
  have d: "B old_blob \<noteq> B sample_blob"
    by (simp add: old_blob_def sample_blob_def)
  show ?thesis
    using v1 m m' d
    by (simp add: race_latest race_env_fields edited_marker race_pass_v2 latest_info_def)
qed

lemma online_download:
  "fst (downloadAssetBlob online_env ''k'') = Inr (Some sample_blob)"
  by (simp add: downloadAssetBlob_def getUserId_def listLatestVersionPath_def online_env_fields
      js_sort_def normalizeName_def DISABLE_LEGACY_FALLBACK_def Let_def)

lemma online_fetch:
  "fst (fetchBlob_v2 online_env ''k'' (getStoredVersion online_env ''k'' stale_db)) = Inr (Some sample_blob)"
  by (simp add: u1_marker stale_marker fetchBlob_v2_def stale_looks_like_file
      downloadAssetBlobByPath_def online_env_fields)

lemma sample_unparsable:
  "jsonParse online_env (blob_text sample_blob) = None"
  by (simp add: online_env_fields sample_blob_def)

theorem unparsable_json_keeps_cache_witness:
  "fst (downloadAssetBlob online_env ''k'') = Inr (Some sample_blob)
   \<and> fst (fetchBlob_v2 online_env ''k'' (getStoredVersion online_env ''k'' stale_db)) = Inr (Some sample_blob)
   \<and> jsonParse online_env (blob_text sample_blob) = None
   \<and> fst (syncJsonFromCloud_v1 online_env ''k'' None stale_db) = NotUpdated
   \<and> fst (snd (syncJsonFromCloud_v1 online_env ''k'' None stale_db)) = stale_db
   \<and> fst (syncJsonFromCloud_v2 online_env ''k'' None stale_db) = NotUpdated
   \<and> fst (snd (syncJsonFromCloud_v2 online_env ''k'' None stale_db)) = stale_db"
proof -
  note c = unparsable_json_keeps_cache [of online_env "''k''" sample_blob None stale_db]
  show ?thesis
    using online_download online_fetch sample_unparsable c by blast
qed

lemma online_first_pass:
  "fst (syncBlobFromCloud_v2 online_env ''k'' None stale_db) = Updated (B sample_blob)"
proof -
  obtain ev where "fetchBlob_v2 online_env ''k'' (getStoredVersion online_env ''k'' stale_db)
      = (Inr (Some sample_blob), ev)"
    using online_fetch
    by (cases "fetchBlob_v2 online_env ''k'' (getStoredVersion online_env ''k'' stale_db)") simp
  moreover have "\<not> same_version (getStoredVersion online_env ''k'' stale_db) ''u1/k/1700000000000-k.bin''"
    by (simp add: same_version_def u1_marker online_env_fields stale_marker)
  ultimately show ?thesis
    by (simp add: syncBlobFromCloud_v2_def online_latest remotePath_of_def latest_info_def
        notify_def online_env_fields)
qed

theorem reconcile_twice_witness:
  "fst (getLatestAssetVersion online_env ''k'') \<noteq> Inr None
   \<and> fst (syncBlobFromCloud_v2 online_env ''k'' None stale_db) = Updated (B sample_blob)
   \<and> fst (second_pass (syncBlobFromCloud_v2 online_env ''k'' None) stale_db) = NotUpdated
   \<and> fst (snd (second_pass (syncBlobFromCloud_v2 online_env ''k'' None) stale_db))
       = fst (snd (syncBlobFromCloud_v2 online_env ''k'' None stale_db))"
proof -
  have h: "fst (getLatestAssetVersion online_env ''k'') \<noteq> Inr None"
    by (simp add: online_latest)
  note c = reconcile_twice [of online_env "''k''" None stale_db]
  show ?thesis
    using h online_first_pass c by blast
qed

lemma denied_pass:
  "db ''u1__k__remoteVersion'' = Some (J (JStr ''u1/k/1700000000000-k.bin'')) \<Longrightarrow>
   syncBlobFromCloud_v2 listing_denied_env ''k'' None db
     = (Updated (B sample_blob), db(''u1__k'' \<mapsto> B sample_blob),
        [Listed ''u1/k'', Downloaded ''u1/k/1700000000000-k.bin''])"
  using synced_looks_like_file
  by (simp add: syncBlobFromCloud_v2_def denied_latest u1_marker u1_scope remotePath_of_def notify_def
      fetchBlob_v2_def downloadAssetBlobByPath_def setStoredVersion_def listing_denied_env_fields)

theorem reconcile_twice_counterexample:
  "fst (syncBlobFromCloud_v2 listing_denied_env ''k'' None synced_db) = Updated (B sample_blob)
   \<and> fst (second_pass (syncBlobFromCloud_v2 listing_denied_env ''k'' None) synced_db)
       = Updated (B sample_blob)"
proof -
  have first: "syncBlobFromCloud_v2 listing_denied_env ''k'' None synced_db
     = (Updated (B sample_blob), synced_db(''u1__k'' \<mapsto> B sample_blob),
        [Listed ''u1/k'', Downloaded ''u1/k/1700000000000-k.bin''])"
    using synced_marker by (rule denied_pass)
  have m': "(synced_db(''u1__k'' \<mapsto> B sample_blob)) ''u1__k__remoteVersion''
      = Some (J (JStr ''u1/k/1700000000000-k.bin''))"
    by (simp add: synced_marker)
  show ?thesis
    by (simp add: second_pass_def first
        denied_pass [of "synced_db(''u1__k'' \<mapsto> B sample_blob)", OF m'])
qed

section \<open>Owner scoping\<close>

lemma saveBlob_frame:
  "k \<noteq> fst (withUserScope e key) \<Longrightarrow> k \<noteq> fst (withUserScope e (versionKey key)) \<Longrightarrow>
   fst (snd (saveBlob e key b db)) k = db k"
  by (auto simp: saveBlob_def setStoredVersion_def Let_def split: sum.splits option.splits prod.splits)

lemma saveJson_frame:
  "k \<noteq> fst (withUserScope e key) \<Longrightarrow> k \<noteq> fst (withUserScope e (versionKey key)) \<Longrightarrow>
   fst (snd (saveJson e key d db)) k = db k"
  by (auto simp: saveJson_def setStoredVersion_def Let_def split: sum.splits option.splits prod.splits)

lemma loadLocalBlob_reads_two_keys:
  "db' (fst (withUserScope e key)) = db (fst (withUserScope e key)) \<Longrightarrow> db' key = db key \<Longrightarrow>
   fst (loadLocalBlob e key db') = fst (loadLocalBlob e key db)"
  by (cases "withUserScope e key") (simp add: loadLocalBlob_def loadLocalValue_def Let_def)

lemma loadLocalJson_reads_two_keys:
  "db' (fst (withUserScope e key)) = db (fst (withUserScope e key)) \<Longrightarrow> db' key = db key \<Longrightarrow>
   fst (loadLocalJson e key db') = fst (loadLocalJson e key db)"
  by (cases "withUserScope e key") (simp add: loadLocalJson_def loadLocalValue_def Let_def)

lemma scopes_differ:
  assumes "currentUser eA = Some a" "a \<noteq> []" "currentUser eB = Some b" "b \<noteq> []" "a \<noteq> b"
  shows "fst (withUserScope eB key) \<noteq> fst (withUserScope eA key)"
  using assms by (simp add: withUserScope_def)

text \<open>
  \<^bold>\<open>C9\<close> (owner scoping), as the code has it. For two distinct signed-in owners and one key,
  a \<^verbatim>\<open>saveBlob\<close> or \<^verbatim>\<open>saveJson\<close> made as the first owner does not change what a local load
  of that key returns to the second, provided the second owner's scoped key is not the
  first owner's version-marker key. (A value written with no current user goes under the
  unscoped key, and the migration of \<^verbatim>\<open>loadLocalValue\<close> hands it to the first signed-in
  owner that loads the key.)
\<close>

theorem other_owner_save_invisible:
  assumes "currentUser eA = Some a" "a \<noteq> []" "currentUser eB = Some b" "b \<noteq> []" "a \<noteq> b"
    and "fst (withUserScope eB key) \<noteq> fst (withUserScope eA (versionKey key))"
  shows "fst (loadLocalBlob eB key (fst (snd (saveBlob eA key v db)))) = fst (loadLocalBlob eB key db)
    \<and> fst (loadLocalJson eB key (fst (snd (saveJson eA key d db)))) = fst (loadLocalJson eB key db)"
proof -
  have 1: "fst (withUserScope eB key) \<noteq> fst (withUserScope eA key)"
    using assms(1-5) by (rule scopes_differ)
  have 2: "key \<noteq> fst (withUserScope eA key)"
    using assms(1,2) scoped_ne_key [of eA key] by (simp add: withUserScope_def)
  have 3: "key \<noteq> fst (withUserScope eA (versionKey key))"
    using marker_ne_key [of eA key] by simp
  have "fst (snd (saveBlob eA key v db)) (fst (withUserScope eB key)) = db (fst (withUserScope eB key))"
    "fst (snd (saveBlob eA key v db)) key = db key"
    using 1 2 3 assms(6) by (simp_all add: saveBlob_frame)
  then have blob: "fst (loadLocalBlob eB key (fst (snd (saveBlob eA key v db)))) = fst (loadLocalBlob eB key db)"
    by (rule loadLocalBlob_reads_two_keys)
  have "fst (snd (saveJson eA key d db)) (fst (withUserScope eB key)) = db (fst (withUserScope eB key))"
    "fst (snd (saveJson eA key d db)) key = db key"
    using 1 2 3 assms(6) by (simp_all add: saveJson_frame)
  then have "fst (loadLocalJson eB key (fst (snd (saveJson eA key d db)))) = fst (loadLocalJson eB key db)"
    by (rule loadLocalJson_reads_two_keys)
  with blob show ?thesis by simp
qed

lemma env_users:
  "currentUser online_env = Some ''u1''" "currentUser other_env = Some ''u2''"
  "currentUser anon_env = None" "authSession anon_env = Inr None"
  "currentUser offline_env = Some ''u1''"
  by (simp_all add: online_env_def other_env_def anon_env_def offline_env_def)

theorem other_owner_save_invisible_witness:
  "currentUser online_env = Some ''u1'' \<and> currentUser other_env = Some ''u2''
   \<and> ''u1'' \<noteq> ''u2''
   \<and> fst (withUserScope other_env ''k'') \<noteq> fst (withUserScope online_env (versionKey ''k''))
   \<and> fst (loadLocalBlob other_env ''k'' Map.empty) = None
   \<and> fst (loadLocalBlob other_env ''k'' (fst (snd (saveBlob online_env ''k'' sample_blob Map.empty))))
       = fst (loadLocalBlob other_env ''k'' Map.empty)"
proof -
  have h1: "currentUser online_env = Some ''u1''" and h3: "currentUser other_env = Some ''u2''"
    by (simp_all add: env_users)
  have h2: "''u1'' \<noteq> []" and h4: "''u2'' \<noteq> []" and h5: "''u1'' \<noteq> ''u2''"
    by simp_all
  have h6: "fst (withUserScope other_env ''k'') \<noteq> fst (withUserScope online_env (versionKey ''k''))"
    by (simp add: withUserScope_def env_users)
  have n: "fst (loadLocalBlob other_env ''k'' Map.empty) = None"
    by (simp add: loadLocalBlob_def loadLocalValue_def withUserScope_def env_users present_def)
  note c = other_owner_save_invisible [of online_env "''u1''" other_env "''u2''" "''k''" sample_blob Map.empty "JNull",
      OF h1 h2 h3 h4 h5 h6]
  show ?thesis
    using h1 h3 h5 h6 n c by blast
qed

theorem anonymous_write_adopted_counterexample:
  "fst (saveBlob anon_env ''k'' sample_blob Map.empty) = Inr ()
   \<and> fst (loadLocalBlob offline_env ''k'' (fst (snd (saveBlob anon_env ''k'' sample_blob Map.empty))))
       = Some (B sample_blob)"
  by (simp add: saveBlob_def loadLocalBlob_def loadLocalValue_def withUserScope_def env_users
      present_def Let_def)

section \<open>Version names\<close>

lemma js_less_irrefl: "\<not> js_less x x"
  by (induction x) auto

lemma js_less_Cons:
  "js_less (a # xs) (b # ys) \<longleftrightarrow>
     (of_char a :: nat) < of_char b \<or> (a = b \<and> js_less xs ys)"
proof (cases "(of_char a :: nat) < of_char b")
  case True
  then show ?thesis by simp
next
  case False
  show ?thesis
  proof (cases "(of_char b :: nat) < of_char a")
    case True
    then show ?thesis using False by auto
  next
    case F: False
    with False have "(of_char a :: nat) = of_char b" by simp
    then have "a = b" by simp
    then show ?thesis by simp
  qed
qed

lemma js_less_asym: "js_less x y \<Longrightarrow> \<not> js_less y x"
proof (induction x arbitrary: y)
  case Nil
  then show ?case by (cases y) simp_all
next
  case (Cons a xs)
  then show ?case
    by (cases y) (auto simp: js_less_Cons simp del: js_less.simps(4))
qed

lemma js_less_trans: "js_less x y \<Longrightarrow> js_less y z \<Longrightarrow> js_less x z"
proof (induction x arbitrary: y z)
  case Nil
  then show ?case by (cases y; cases z) simp_all
next
  case (Cons a xs)
  then show ?case
    by (cases y; cases z) (auto simp: js_less_Cons simp del: js_less.simps(4))
qed

lemma js_less_total: "x \<noteq> y \<Longrightarrow> js_less x y \<or> js_less y x"
proof (induction x arbitrary: y)
  case Nil
  then show ?case by (cases y) simp_all
next
  case (Cons a xs)
  show ?case
  proof (cases y)
    case Nil
    then show ?thesis by simp
  next
    case (Cons b ys)
    show ?thesis
    proof (cases "a = b")
      case True
      then have "xs \<noteq> ys" using Cons.prems Cons by simp
      then have "js_less xs ys \<or> js_less ys xs" by (rule Cons.IH)
      then show ?thesis using True Cons by (simp add: js_less_Cons del: js_less.simps(4))
    next
      case False
      then have "(of_char a :: nat) \<noteq> of_char b" by simp
      then have "(of_char a :: nat) < of_char b \<or> (of_char b :: nat) < of_char a" by arith
      then show ?thesis using Cons by (auto simp: js_less_Cons simp del: js_less.simps(4))
    qed
  qed
qed

lemma js_less_append_same: "js_less (p @ x) (p @ y) = js_less x y"
  by (induction p) simp_all

lemma of_char_digit: "d < 10 \<Longrightarrow> (of_char (digit_char d) :: nat) = 48 + d"
proof -
  assume "d < 10"
  then have "d = 0 \<or> d = 1 \<or> d = 2 \<or> d = 3 \<or> d = 4 \<or> d = 5 \<or> d = 6 \<or> d = 7 \<or> d = 8 \<or> d = 9"
    by arith
  then show ?thesis
    by (elim disjE) (simp_all add: digit_char_def)
qed

lemma dec_nonempty: "dec n \<noteq> []"
  by (subst dec.simps) simp

lemma dec_length_one: "length (dec n) = 1 \<longleftrightarrow> n < 10"
proof
  assume l: "length (dec n) = 1"
  show "n < 10"
  proof (rule ccontr)
    assume "\<not> n < 10"
    then have "dec n = dec (n div 10) @ [digit_char (n mod 10)]"
      by (subst dec.simps) simp
    with l have "dec (n div 10) = []" by simp
    then show False by (simp add: dec_nonempty)
  qed
next
  assume "n < 10"
  then show "length (dec n) = 1"
    by (subst dec.simps) simp
qed

lemma mod_less_of_div_eq:
  fixes a b :: nat
  assumes "a < b" "a div 10 = b div 10"
  shows "a mod 10 < b mod 10"
proof -
  have "10 * (a div 10) + a mod 10 < 10 * (b div 10) + b mod 10"
    using assms(1) by (simp only: mult_div_mod_eq)
  then show ?thesis
    by (simp only: assms(2) nat_add_left_cancel_less)
qed

lemma dec_less:
  "length (dec a) = length (dec b) \<Longrightarrow> a < b \<Longrightarrow> js_less (dec a @ r) (dec b @ s)"
proof (induction a arbitrary: b r s rule: dec.induct)
  case (1 a)
  show ?case
  proof (cases "a < 10")
    case True
    then have la: "dec a = [digit_char a]"
      by (subst dec.simps) simp
    then have "length (dec b) = 1" using "1.prems"(1) by simp
    then have b: "b < 10" using dec_length_one [of b] by simp
    then have lb: "dec b = [digit_char b]"
      by (subst dec.simps) simp
    show ?thesis
      using True b "1.prems"(2) by (simp add: la lb of_char_digit)
  next
    case False
    then have b: "\<not> b < 10" using "1.prems"(2) by simp
    have la: "dec a = dec (a div 10) @ [digit_char (a mod 10)]"
      using False by (subst dec.simps) simp
    have lb: "dec b = dec (b div 10) @ [digit_char (b mod 10)]"
      using b by (subst dec.simps) simp
    have len: "length (dec (a div 10)) = length (dec (b div 10))"
      using "1.prems"(1) by (simp add: la lb)
    show ?thesis
    proof (cases "a div 10 < b div 10")
      case True
      from "1.IH" [OF False len True]
      have "js_less (dec (a div 10) @ (digit_char (a mod 10) # r)) (dec (b div 10) @ (digit_char (b mod 10) # s))" .
      then show ?thesis by (simp add: la lb)
    next
      case F: False
      have "a div 10 \<le> b div 10" using "1.prems"(2) by (simp add: div_le_mono)
      with F have eq: "a div 10 = b div 10" by simp
      have "a mod 10 < b mod 10"
        using "1.prems"(2) eq by (rule mod_less_of_div_eq)
      then have "js_less (digit_char (a mod 10) # r) (digit_char (b mod 10) # s)"
        by (simp add: of_char_digit)
      then show ?thesis
        by (simp add: la lb eq js_less_append_same)
    qed
  qed
qed

lemma versionName_less:
  "t' < t \<Longrightarrow> length (dec t') = length (dec t) \<Longrightarrow> js_less (versionName t' f') (versionName t f)"
  by (simp add: versionName_def dec_less)

lemma sort_insert_set: "set (sort_insert cmp x xs) = insert x (set xs)"
  by (induction xs) auto

lemma js_sort_set: "set (js_sort cmp xs) = set xs"
  by (induction xs) (simp_all add: js_sort_def sort_insert_set)

lemma js_sort_Cons: "js_sort cmp (x # xs) = sort_insert cmp x (js_sort cmp xs)"
  by (simp add: js_sort_def)

lemma head_max_insert:
  assumes "\<forall>y\<in>set ys. \<not> js_less (name (hd ys)) (name y)"
  shows "\<forall>y\<in>set (sort_insert name_desc x ys). \<not> js_less (name (hd (sort_insert name_desc x ys))) (name y)"
proof (cases ys)
  case Nil
  then show ?thesis by (simp add: js_less_irrefl)
next
  case (Cons y ys')
  show ?thesis
  proof (cases "js_less (name x) (name y)")
    case True
    then show ?thesis
      using assms Cons by (auto simp: name_desc_def sort_insert_set dest: js_less_asym)
  next
    case False
    have "\<not> js_less (name x) (name z)" if "z \<in> set (y # ys')" for z
    proof
      assume xz: "js_less (name x) (name z)"
      have nyz: "\<not> js_less (name y) (name z)" using assms Cons that by auto
      show False
      proof (cases "name y = name z")
        case True
        with xz False show False by simp
      next
        case F: False
        then have "js_less (name z) (name y)" using nyz js_less_total by blast
        with xz have "js_less (name x) (name y)" by (rule js_less_trans)
        with False show False by simp
      qed
    qed
    then show ?thesis
      using False Cons by (auto simp: name_desc_def js_less_irrefl)
  qed
qed

lemma js_sort_head_max:
  "\<forall>y\<in>set (js_sort name_desc xs). \<not> js_less (name (hd (js_sort name_desc xs))) (name y)"
proof (induction xs)
  case Nil
  then show ?case by (simp add: js_sort_def)
next
  case (Cons x xs)
  then show ?case
    unfolding js_sort_Cons by (rule head_max_insert)
qed

lemma js_sort_head_greatest:
  assumes "m \<in> set xs" "\<forall>x\<in>set xs. name x = name m \<or> js_less (name x) (name m)"
  shows "\<exists>latest rest. js_sort name_desc xs = latest # rest \<and> name latest = name m"
proof (cases "js_sort name_desc xs")
  case Nil
  then have "set xs = {}" using js_sort_set [of name_desc xs] by simp
  with assms(1) show ?thesis by simp
next
  case (Cons latest rest)
  then have "latest \<in> set xs" using js_sort_set [of name_desc xs] by auto
  with assms(2) have c: "name latest = name m \<or> js_less (name latest) (name m)" by blast
  have "m \<in> set (js_sort name_desc xs)" using assms(1) by (simp add: js_sort_set)
  then have "\<not> js_less (name (hd (js_sort name_desc xs))) (name m)"
    using js_sort_head_max by blast
  then have "\<not> js_less (name latest) (name m)" using Cons by simp
  with c Cons show ?thesis by simp
qed

lemma dec_digits: "c \<in> set (dec n) \<Longrightarrow> \<exists>d<10. c = digit_char d"
proof (induction n rule: dec.induct)
  case (1 n)
  show ?case
  proof (cases "n < 10")
    case True
    then have "dec n = [digit_char n]" by (subst dec.simps) simp
    with "1.prems" True show ?thesis by auto
  next
    case False
    then have "dec n = dec (n div 10) @ [digit_char (n mod 10)]" by (subst dec.simps) simp
    with "1.prems" have "c \<in> set (dec (n div 10)) \<or> c = digit_char (n mod 10)" by auto
    then show ?thesis
    proof
      assume "c \<in> set (dec (n div 10))"
      with False show ?thesis by (rule "1.IH")
    next
      assume "c = digit_char (n mod 10)"
      moreover have "n mod 10 < 10" by simp
      ultimately show ?thesis by blast
    qed
  qed
qed

lemma digit_not_separator:
  "d < 10 \<Longrightarrow> digit_char d \<noteq> CHR ''/'' \<and> digit_char d \<noteq> CHR 0x5C \<and> digit_char d \<noteq> CHR ''-''"
proof -
  assume d: "d < 10"
  have "(of_char (digit_char d) :: nat) \<noteq> of_char CHR ''/''"
    "(of_char (digit_char d) :: nat) \<noteq> of_char (CHR 0x5C)"
    "(of_char (digit_char d) :: nat) \<noteq> of_char CHR ''-''"
    using d by (simp_all add: of_char_digit)
  then show ?thesis by auto
qed

lemma dec_no_separator:
  assumes "c \<in> set (dec n)"
  shows "c \<noteq> CHR ''/'' \<and> c \<noteq> CHR 0x5C \<and> c \<noteq> CHR ''-''"
proof -
  obtain d where "d < 10" "c = digit_char d"
    using assms dec_digits by blast
  then show ?thesis
    using digit_not_separator [of d] by simp
qed

lemma versionName_nonempty: "versionName t f \<noteq> []"
  by (simp add: versionName_def dec_nonempty)

lemma normalizeName_versionName:
  assumes "CHR 0x5C \<notin> set f"
  shows "normalizeName (versionName t f) = versionName t f"
proof -
  have "CHR 0x5C \<notin> set (dec t)"
    using dec_no_separator [of "CHR 0x5C" t] by auto
  then have nb: "CHR 0x5C \<notin> set (versionName t f)"
    using assms by (simp add: versionName_def)
  then have m: "map (\<lambda>c. if c = CHR 0x5C then CHR ''/'' else c) (versionName t f) = versionName t f"
    by (intro map_idI) auto
  obtain c cs where cs: "dec t = c # cs"
    using dec_nonempty [of t] by (cases "dec t") auto
  then have "c \<in> set (dec t)" by simp
  then have "c \<noteq> CHR ''/''"
    using dec_no_separator [of c t] by simp
  then have "dropWhile (\<lambda>c. c = CHR ''/'') (versionName t f) = versionName t f"
    by (simp add: versionName_def cs)
  then show ?thesis
    by (simp add: normalizeName_def m versionName_nonempty)
qed

lemma listLatest_greatest:
  assumes "storageList e (u @ ''/'' @ k) = Inr \<lparr>list_data = Some l, list_error = False\<rparr>"
    and "m \<in> set l" "name m \<noteq> []"
    and "\<forall>x\<in>set l. name x = name m \<or> js_less (name x) (name m)"
  shows "fst (listLatestVersionPath e u k) = Some (u @ ''/'' @ k @ ''/'' @ normalizeName (name m))"
proof -
  let ?named = "filter (\<lambda>x. name x \<noteq> []) l"
  have "m \<in> set ?named" using assms(2,3) by simp
  moreover have "\<forall>x\<in>set ?named. name x = name m \<or> js_less (name x) (name m)"
    using assms(4) by simp
  ultimately obtain latest rest where s: "js_sort name_desc ?named = latest # rest"
    and n: "name latest = name m"
    using js_sort_head_greatest by blast
  have "l \<noteq> []" using assms(2) by auto
  then show ?thesis
    using assms(1) by (simp add: listLatestVersionPath_def Let_def s n)
qed

text \<open>
  \<^bold>\<open>C8\<close> (version names and creation order), as the code has it. The name of a version is
  the decimal \<^verbatim>\<open>Date.now()\<close>, a hyphen and the file name. If every other object of the folder
  was written at an earlier timestamp with as many digits as the newest one's, then each
  of them sorts strictly before the newest, and \<^verbatim>\<open>listLatestVersionPath\<close> returns the
  newest: the very path \<^verbatim>\<open>uploadAsset\<close> returned for it when its file name has no backslash.
  Writes that share a timestamp are ordered by file name alone.
\<close>

theorem latest_is_newest:
  assumes "storageList e (u @ ''/'' @ k) = Inr \<lparr>list_data = Some l, list_error = False\<rparr>"
    and "m \<in> set l" "name m = versionName t f"
    and "\<forall>x\<in>set l. name x = versionName t f
           \<or> (\<exists>t' f'. name x = versionName t' f' \<and> t' < t \<and> length (dec t') = length (dec t))"
  shows "(\<forall>x\<in>set l. name x \<noteq> versionName t f \<longrightarrow> js_less (name x) (versionName t f))
    \<and> fst (listLatestVersionPath e u k) = Some (u @ ''/'' @ k @ ''/'' @ normalizeName (versionName t f))
    \<and> (CHR 0x5C \<notin> set f \<longrightarrow> fst (listLatestVersionPath e u k) = Some (objectPath u k t f))"
proof -
  have order: "\<forall>x\<in>set l. name x = name m \<or> js_less (name x) (name m)"
    using assms(3,4) versionName_less by metis
  have ne: "name m \<noteq> []"
    by (simp add: assms(3) versionName_nonempty)
  have latest: "fst (listLatestVersionPath e u k) = Some (u @ ''/'' @ k @ ''/'' @ normalizeName (name m))"
    using assms(1,2) ne order by (rule listLatest_greatest)
  show ?thesis
    using order latest by (auto simp: assms(3) objectPath_def normalizeName_versionName)
qed

lemma dec_samples:
  "dec 1700000000000 = ''1700000000000''" "dec 1700000000100 = ''1700000000100''"
  by (simp_all add: dec.simps digit_char_def)

lemma versionName_samples:
  "versionName 1700000000000 ''k.bin'' = ''1700000000000-k.bin''"
  "versionName 1700000000100 ''k.bin'' = ''1700000000100-k.bin''"
  by (simp_all add: versionName_def dec_samples)

lemma two_versions_list:
  "storageList two_versions_env (''u1'' @ ''/'' @ ''k'')
     = Inr \<lparr>list_data = Some two_versions, list_error = False\<rparr>"
  by (simp add: two_versions_env_def)

theorem latest_is_newest_witness:
  "storageList two_versions_env (''u1'' @ ''/'' @ ''k'')
     = Inr \<lparr>list_data = Some two_versions, list_error = False\<rparr>
   \<and> two_versions = [\<lparr>name = versionName 1700000000100 ''k.bin''\<rparr>,
        \<lparr>name = versionName 1700000000000 ''k.bin''\<rparr>]
   \<and> (1700000000000 :: nat) < 1700000000100
   \<and> length (dec 1700000000000) = length (dec 1700000000100)
   \<and> js_less (versionName 1700000000000 ''k.bin'') (versionName 1700000000100 ''k.bin'')
   \<and> fst (listLatestVersionPath two_versions_env ''u1'' ''k'')
       = Some (objectPath ''u1'' ''k'' 1700000000100 ''k.bin'')
   \<and> objectPath ''u1'' ''k'' 1700000000100 ''k.bin'' = ''u1/k/1700000000100-k.bin''"
proof -
  have tv: "two_versions = [\<lparr>name = versionName 1700000000100 ''k.bin''\<rparr>,
        \<lparr>name = versionName 1700000000000 ''k.bin''\<rparr>]"
    by (simp add: two_versions_def versionName_samples)
  have lt: "(1700000000000 :: nat) < 1700000000100" by simp
  have len: "length (dec 1700000000000) = length (dec 1700000000100)"
    by (simp add: dec_samples)
  have m: "\<lparr>name = versionName 1700000000100 ''k.bin''\<rparr> \<in> set two_versions"
    by (simp add: tv)
  have nm: "name \<lparr>name = versionName 1700000000100 ''k.bin''\<rparr> = versionName 1700000000100 ''k.bin''"
    by simp
  have older: "\<forall>x\<in>set two_versions. name x = versionName 1700000000100 ''k.bin''
      \<or> (\<exists>t' f'. name x = versionName t' f' \<and> t' < 1700000000100
            \<and> length (dec t') = length (dec 1700000000100))"
    using lt len by (auto simp: tv)
  have other: "\<lparr>name = versionName 1700000000000 ''k.bin''\<rparr> \<in> set two_versions"
    "name \<lparr>name = versionName 1700000000000 ''k.bin''\<rparr> \<noteq> versionName 1700000000100 ''k.bin''"
    by (simp_all add: tv versionName_samples)
  have nb: "CHR 0x5C \<notin> set ''k.bin''" by simp
  have p: "objectPath ''u1'' ''k'' 1700000000100 ''k.bin'' = ''u1/k/1700000000100-k.bin''"
    by (simp add: objectPath_def versionName_samples)
  note c = latest_is_newest [OF two_versions_list m nm older]
  have "js_less (versionName 1700000000000 ''k.bin'') (versionName 1700000000100 ''k.bin'')"
    using c other by fastforce
  moreover have "fst (listLatestVersionPath two_versions_env ''u1'' ''k'')
       = Some (objectPath ''u1'' ''k'' 1700000000100 ''k.bin'')"
    using c nb by blast
  ultimately show ?thesis
    using two_versions_list tv lt len p by blast
qed

lemma online_upload:
  "blob_name f = Some n \<Longrightarrow> trim n = n \<Longrightarrow> n \<noteq> [] \<Longrightarrow>
   fst (uploadAsset online_env ''k'' (Some f) None) = Inr (Some (''u1/k/1700000000000-'' @ n))"
  by (simp add: uploadAsset_def getUserId_def objectPath_def versionName_def dec_samples
      inferredFilename_def online_env_def Let_def)

lemma trim_samples: "trim ''b.png'' = ''b.png''" "trim ''a.png'' = ''a.png''"
  by (simp_all add: trim_def is_ws_def)

lemma both_listed_latest:
  "fst (listLatestVersionPath both_listed_env ''u1'' ''k'') = Some ''u1/k/1700000000000-b.png''"
  by (simp add: listLatestVersionPath_def both_listed_env_def js_sort_def name_desc_def
      normalizeName_def Let_def)

theorem same_timestamp_counterexample:
  "dateNow online_env = 1700000000000
   \<and> fst (uploadAsset online_env ''k'' (Some first_file) None) = Inr (Some ''u1/k/1700000000000-b.png'')
   \<and> fst (uploadAsset online_env ''k'' (Some second_file) None) = Inr (Some ''u1/k/1700000000000-a.png'')
   \<and> js_less ''1700000000000-a.png'' ''1700000000000-b.png''
   \<and> fst (listLatestVersionPath both_listed_env ''u1'' ''k'') = Some ''u1/k/1700000000000-b.png''"
proof -
  have "fst (uploadAsset online_env ''k'' (Some first_file) None) = Inr (Some ''u1/k/1700000000000-b.png'')"
    using online_upload [of first_file "''b.png''"] by (simp add: first_file_def trim_samples)
  moreover have "fst (uploadAsset online_env ''k'' (Some second_file) None) = Inr (Some ''u1/k/1700000000000-a.png'')"
    using online_upload [of second_file "''a.png''"] by (simp add: second_file_def trim_samples)
  moreover have "js_less ''1700000000000-a.png'' ''1700000000000-b.png''"
    by simp
  moreover have "dateNow online_env = 1700000000000"
    by (simp add: online_env_def)
  ultimately show ?thesis
    using both_listed_latest by simp
qed

end
